theory Spec2Isabelle
  imports Complex_Main
begin

section \<open>Tensors of the framework\<close>

text \<open>
  The notebook works on \<^verbatim>\<open>torch.Tensor\<close> values. A contiguous tensor is a shape and
  its elements in row-major order; floating point numbers are taken as reals (the
  properties below are stated in exact real arithmetic).
\<close>

record tensor =
  shape :: "nat list"
  data :: "real list"

text \<open>The exceptions a cell can end with: the framework raises \<^verbatim>\<open>RuntimeError\<close> on a
  shape mismatch and \<^verbatim>\<open>IndexError\<close> on an index or a dimension out of range; Python
  raises \<^verbatim>\<open>NameError\<close> on a variable that is not bound and \<^verbatim>\<open>AttributeError\<close> on an
  attribute the object does not have.\<close>

datatype error = RuntimeError | IndexError | NameError | AttributeError

definition rbind :: "error + 'a \<Rightarrow> ('a \<Rightarrow> error + 'b) \<Rightarrow> error + 'b" where
  "rbind m f = (case m of Inl e \<Rightarrow> Inl e | Inr a \<Rightarrow> f a)"

definition numel :: "tensor \<Rightarrow> nat" where
  "numel t = prod_list (shape t)"

definition valid :: "tensor \<Rightarrow> bool" where
  "valid t \<longleftrightarrow> length (data t) = numel t"

text \<open>\<^verbatim>\<open>t[i][j]\<close> of a 2-D tensor and \<^verbatim>\<open>t[i][c][h][w]\<close> of a 4-D tensor.\<close>

definition at2 :: "tensor \<Rightarrow> nat \<Rightarrow> nat \<Rightarrow> real" where
  "at2 t i j = data t ! (i * (shape t ! 1) + j)"

definition at4 :: "tensor \<Rightarrow> nat \<Rightarrow> nat \<Rightarrow> nat \<Rightarrow> nat \<Rightarrow> real" where
  "at4 t i c h w =
     data t ! (((i * (shape t ! 1) + c) * (shape t ! 2) + h) * (shape t ! 3) + w)"

subsection \<open>Elementwise functions\<close>

definition pointwise :: "(real \<Rightarrow> real) \<Rightarrow> tensor \<Rightarrow> tensor" where
  "pointwise f t = t\<lparr>data := map f (data t)\<rparr>"

definition torch_exp :: "tensor \<Rightarrow> tensor" where
  "torch_exp = pointwise exp"

definition torch_tanh :: "tensor \<Rightarrow> tensor" where
  "torch_tanh = pointwise tanh"

definition sigmoid :: "real \<Rightarrow> real" where
  "sigmoid a = 1 / (1 + exp (- a))"

definition torch_sigmoid :: "tensor \<Rightarrow> tensor" where
  "torch_sigmoid = pointwise sigmoid"

definition relu :: "real \<Rightarrow> real" where
  "relu a = max 0 a"

definition torch_relu :: "tensor \<Rightarrow> tensor" where
  "torch_relu = pointwise relu"

subsection \<open>Reduction, reshaping and broadcasting\<close>

text \<open>
  \<^verbatim>\<open>t.sum(dim=d)\<close>: the dimension \<open>d\<close> is summed away. With \<open>b\<close> its size and
  \<open>R\<close> the number of elements of the dimensions after it, element \<open>q\<close> of the result
  sums the \<open>b\<close> elements of the operand that differ from it in dimension \<open>d\<close> only.
  A dimension the tensor does not have raises \<^verbatim>\<open>IndexError\<close>.
\<close>

definition tensor_sum :: "nat \<Rightarrow> tensor \<Rightarrow> error + tensor" where
  "tensor_sum d t =
     (if d < length (shape t)
      then let L = prod_list (take d (shape t));
               b = shape t ! d;
               R = prod_list (drop (Suc d) (shape t))
           in Inr \<lparr>shape = take d (shape t) @ drop (Suc d) (shape t),
                   data = map (\<lambda>q. \<Sum>j\<leftarrow>[0..<b]. data t ! (((q div R) * b + j) * R + q mod R))
                              [0..<L * R]\<rparr>
      else Inl IndexError)"

text \<open>
  \<^verbatim>\<open>t.view(*sizes)\<close>: the same elements under a new shape. At most one size may be
  \<open>-1\<close>, which is then inferred from the number of elements; the sizes must account
  for every element, or the call raises \<^verbatim>\<open>RuntimeError\<close>.
\<close>

definition view :: "int list \<Rightarrow> tensor \<Rightarrow> error + tensor" where
  "view sizes t =
     (let known = prod_list (map nat (filter (\<lambda>s. 0 \<le> s) sizes));
          inferred = length (filter (\<lambda>s. s = - 1) sizes)
      in if list_ex (\<lambda>s. s < - 1) sizes \<or> 1 < inferred then Inl RuntimeError
         else if inferred = 0
         then (if numel t = known then Inr \<lparr>shape = map nat sizes, data = data t\<rparr>
               else Inl RuntimeError)
         else (if 0 < known \<and> numel t mod known = 0
               then Inr \<lparr>shape = map (\<lambda>s. if s = - 1 then numel t div known else nat s) sizes,
                         data = data t\<rparr>
               else Inl RuntimeError))"

text \<open>
  Broadcasting of two operands: the shapes are aligned at their last dimension; two
  sizes are compatible when they are equal or one of them is 1. Both functions work on
  reversed shapes. \<open>bindex\<close> maps the position \<open>q\<close> of an element of the result to
  the position of the operand's element it is computed from.
\<close>

fun bshape :: "nat list \<Rightarrow> nat list \<Rightarrow> nat list option" where
  "bshape [] ys = Some ys"
| "bshape (x # xs) [] = Some (x # xs)"
| "bshape (x # xs) (y # ys) =
     (if x = y \<or> y = 1 then map_option ((#) x) (bshape xs ys)
      else if x = 1 then map_option ((#) y) (bshape xs ys)
      else None)"

fun bindex :: "nat list \<Rightarrow> nat list \<Rightarrow> nat \<Rightarrow> nat" where
  "bindex [] ps q = 0"
| "bindex (r # rs) [] q = 0"
| "bindex (r # rs) (p # ps) q =
     (if p = 1 then 0 else q mod r) + p * bindex rs ps (q div r)"

definition broadcast_op :: "(real \<Rightarrow> real \<Rightarrow> real) \<Rightarrow> tensor \<Rightarrow> tensor \<Rightarrow> error + tensor" where
  "broadcast_op f a b =
     (case bshape (rev (shape a)) (rev (shape b)) of
        None \<Rightarrow> Inl RuntimeError
      | Some rs \<Rightarrow>
          Inr \<lparr>shape = rev rs,
               data = map (\<lambda>q. f (data a ! bindex rs (rev (shape a)) q)
                                 (data b ! bindex rs (rev (shape b)) q))
                          [0..<prod_list rs]\<rparr>)"

definition tensor_div :: "tensor \<Rightarrow> tensor \<Rightarrow> error + tensor" where
  "tensor_div = broadcast_op (/)"

definition tensor_add :: "tensor \<Rightarrow> tensor \<Rightarrow> error + tensor" where
  "tensor_add = broadcast_op (+)"

section \<open>The softmax function of the notebook\<close>

text \<open>
  \<^verbatim>\<open>
  def softmax(x):
      return torch.exp(x) / torch.exp(x).sum(dim=1).view(-1, 1)
  \<close>
  \<open>softmax_denominator\<close> is the right operand of the division.
\<close>

definition softmax_denominator :: "tensor \<Rightarrow> error + tensor" where
  "softmax_denominator x = rbind (tensor_sum 1 (torch_exp x)) (view [- 1, 1])"

definition softmax :: "tensor \<Rightarrow> error + tensor" where
  "softmax x = rbind (softmax_denominator x) (tensor_div (torch_exp x))"

text \<open>The number of entries of \<^verbatim>\<open>torch.exp(x).sum(dim=1)\<close>, which is the number of rows of
  the denominator after \<^verbatim>\<open>view(-1, 1)\<close>: the product of the sizes of \<open>x\<close> but that of
  dimension 1.\<close>

definition softmax_rows_count :: "tensor \<Rightarrow> nat" where
  "softmax_rows_count x = prod_list (take 1 (shape x) @ drop 2 (shape x))"

subsection \<open>Matrix product, indexing and resizing\<close>

text \<open>\<^verbatim>\<open>torch.mm(a, b)\<close>: the product of two matrices; any other pair of shapes raises.\<close>

definition torch_mm :: "tensor \<Rightarrow> tensor \<Rightarrow> error + tensor" where
  "torch_mm a b =
     (if length (shape a) = 2 \<and> length (shape b) = 2 \<and> shape a ! 1 = shape b ! 0
      then let n = shape a ! 0; k = shape a ! 1; m = shape b ! 1
           in Inr \<lparr>shape = [n, m],
                   data = map (\<lambda>q. \<Sum>l\<leftarrow>[0..<k]. data a ! ((q div m) * k + l) * data b ! (l * m + q mod m))
                              [0..<n * m]\<rparr>
      else Inl RuntimeError)"

text \<open>\<^verbatim>\<open>t[i]\<close> selects along the first dimension; \<^verbatim>\<open>t[i, :]\<close> is the same selection and
  needs a second dimension to slice.\<close>

definition select :: "nat \<Rightarrow> tensor \<Rightarrow> error + tensor" where
  "select i t =
     (case shape t of
        [] \<Rightarrow> Inl IndexError
      | n # rest \<Rightarrow>
          if i < n
          then Inr \<lparr>shape = rest, data = take (prod_list rest) (drop (i * prod_list rest) (data t))\<rparr>
          else Inl IndexError)"

definition select_slice :: "nat \<Rightarrow> tensor \<Rightarrow> error + tensor" where
  "select_slice i t = (if length (shape t) < 2 then Inl IndexError else select i t)"

text \<open>
  \<^verbatim>\<open>t.resize_(*sizes)\<close>, here \<open>resize_inplace\<close>, gives the tensor a new shape in place
  and never raises: the elements are kept in storage order, and when the new shape has
  more elements than the storage holds, the storage grows and the new elements are
  whatever the memory holds (\<open>junk\<close>).
\<close>

definition resize_inplace :: "nat list \<Rightarrow> (nat \<Rightarrow> real) \<Rightarrow> tensor \<Rightarrow> tensor" where
  "resize_inplace sizes junk t =
     \<lparr>shape = sizes,
      data = map (\<lambda>i. if i < length (data t) then data t ! i else junk i) [0..<prod_list sizes]\<rparr>"

subsection \<open>The module library\<close>

text \<open>
  \<^verbatim>\<open>nn.Linear(n_in, n_out)\<close> owns a weight of shape \<open>[n_out, n_in]\<close> and a bias of
  shape \<open>[n_out]\<close>, which it fills from the random generator (\<open>w0\<close>, \<open>b0\<close>). Its
  forward computation is \<open>x W\<^sup>T + b\<close> over the last dimension of \<open>x\<close>, which must have
  \<open>n_in\<close> elements. A bias of another shape than \<open>[n_out]\<close> does not arise: the
  constructor builds it so, and \<^verbatim>\<open>fill_\<close> and \<^verbatim>\<open>normal_\<close> keep shapes.
\<close>

record linear =
  weight :: tensor
  bias :: tensor

definition nn_Linear :: "nat \<Rightarrow> nat \<Rightarrow> (nat \<Rightarrow> real) \<Rightarrow> (nat \<Rightarrow> real) \<Rightarrow> linear" where
  "nn_Linear n_in n_out w0 b0 =
     \<lparr>weight = \<lparr>shape = [n_out, n_in], data = map w0 [0..<n_out * n_in]\<rparr>,
      bias = \<lparr>shape = [n_out], data = map b0 [0..<n_out]\<rparr>\<rparr>"

definition Linear_forward :: "linear \<Rightarrow> tensor \<Rightarrow> error + tensor" where
  "Linear_forward lin x =
     (let W = weight lin; b = bias lin
      in if shape x \<noteq> [] \<and> length (shape W) = 2 \<and> last (shape x) = shape W ! 1 \<and>
            shape b = [shape W ! 0]
         then let k = shape W ! 1; m = shape W ! 0; n = prod_list (butlast (shape x))
              in Inr \<lparr>shape = butlast (shape x) @ [m],
                      data = map (\<lambda>q. (\<Sum>l\<leftarrow>[0..<k]. data x ! ((q div m) * k + l) *
                                                     data W ! ((q mod m) * k + l))
                                       + data b ! (q mod m))
                                 [0..<n * m]\<rparr>
         else Inl RuntimeError)"

text \<open>
  \<^verbatim>\<open>F.softmax(input, dim)\<close> normalises the exponentials along one dimension. A negative
  \<open>dim\<close> counts from the last dimension; without a \<open>dim\<close> the library picks 0 for
  tensors of 0, 1 or 3 dimensions and 1 otherwise. A tensor without dimensions is
  handled as one element.
\<close>

definition softmax_along :: "nat \<Rightarrow> tensor \<Rightarrow> tensor" where
  "softmax_along d t =
     (let b = shape t ! d; R = prod_list (drop (Suc d) (shape t))
      in t\<lparr>data := map (\<lambda>q. exp (data t ! q) /
                              (\<Sum>j\<leftarrow>[0..<b]. exp (data t ! (((q div (b * R)) * b + j) * R + q mod R))))
                       [0..<numel t]\<rparr>)"

definition F_softmax :: "tensor \<Rightarrow> int option \<Rightarrow> error + tensor" where
  "F_softmax t dim_arg =
     (let r = int (length (shape t));
          d = (case dim_arg of None \<Rightarrow> (if r = 0 \<or> r = 1 \<or> r = 3 then 0 else 1) | Some d \<Rightarrow> d)
      in if r = 0
         then (if d = 0 \<or> d = - 1 then Inr (pointwise (\<lambda>a. exp a / exp a) t) else Inl IndexError)
         else if - r \<le> d \<and> d < r
         then Inr (softmax_along (nat (if d < 0 then d + r else d)) t)
         else Inl IndexError)"

text \<open>The layer objects of the library the notebook builds: \<^verbatim>\<open>nn.Linear\<close>,
  \<^verbatim>\<open>nn.Sigmoid()\<close>, \<^verbatim>\<open>nn.ReLU()\<close> and \<^verbatim>\<open>nn.Softmax(dim)\<close>, and what calling one does.\<close>

datatype layer = Linear linear | Sigmoid | ReLU | Softmax "int option"

fun layer_forward :: "layer \<Rightarrow> tensor \<Rightarrow> error + tensor" where
  "layer_forward (Linear lin) x = Linear_forward lin x"
| "layer_forward Sigmoid x = Inr (torch_sigmoid x)"
| "layer_forward ReLU x = Inr (torch_relu x)"
| "layer_forward (Softmax d) x = F_softmax x d"

text \<open>\<^verbatim>\<open>nn.Sequential\<close> keeps its layers in order, each under a name, and passes the
  input through them one after the other.\<close>

fun Sequential_forward :: "(string \<times> layer) list \<Rightarrow> tensor \<Rightarrow> error + tensor" where
  "Sequential_forward [] x = Inr x"
| "Sequential_forward (l # ls) x = rbind (layer_forward (snd l) x) (Sequential_forward ls)"

section \<open>The manual forward pass\<close>

text \<open>
  \<^verbatim>\<open>
  w1 = torch.randn(28*28, 256)
  b1 = torch.randn(256)
  w2 = torch.randn(256, 10)
  b2 = torch.randn(10)

  x = images.view(64, -1)
  x = torch.tanh(torch.mm(x, w1) + b1)
  out = torch.mm(x, w2) + b2
  \<close>
  \<open>torch_randn\<close> is a tensor of the given shape filled by the random generator
  \<open>g\<close>; \<open>manual_hidden\<close> is the value of \<open>x\<close> after the second assignment to it.
\<close>

definition torch_randn :: "nat list \<Rightarrow> (nat \<Rightarrow> real) \<Rightarrow> tensor" where
  "torch_randn sizes g = \<lparr>shape = sizes, data = map g [0..<prod_list sizes]\<rparr>"

definition manual_hidden :: "tensor \<Rightarrow> tensor \<Rightarrow> tensor \<Rightarrow> error + tensor" where
  "manual_hidden images w1 b1 =
     rbind (view [64, - 1] images) (\<lambda>x.
     rbind (torch_mm x w1) (\<lambda>m.
     rbind (tensor_add m b1) (\<lambda>a. Inr (torch_tanh a))))"

definition manual_forward :: "tensor \<Rightarrow> tensor \<Rightarrow> tensor \<Rightarrow> tensor \<Rightarrow> tensor \<Rightarrow> error + tensor" where
  "manual_forward images w1 b1 w2 b2 =
     rbind (manual_hidden images w1 b1) (\<lambda>x.
     rbind (torch_mm x w2) (\<lambda>m. tensor_add m b2))"

section \<open>The network classes\<close>

text \<open>
  The first \<^verbatim>\<open>Network\<close> class keeps two linear layers and two activation modules, and
  its \<^verbatim>\<open>forward\<close> calls the four in turn:
  \<^verbatim>\<open>
  self.hidden = nn.Linear(784, 256)
  self.output = nn.Linear(256, 10)
  self.sigmoid = nn.Sigmoid()
  self.softmax = nn.Softmax(dim=1)

  def forward(self, x):
      x = self.hidden(x)
      x = self.sigmoid(x)
      x = self.output(x)
      x = self.softmax(x)
      return x
  \<close>
  The second \<^verbatim>\<open>Network\<close> class keeps the two linear layers only and calls the functions
  of \<^verbatim>\<open>torch.nn.functional\<close>:
  \<^verbatim>\<open>
  def forward(self, x):
      x = F.sigmoid(self.hidden(x))
      x = F.softmax(self.output(x), dim=1)
      return x
  \<close>
  The record of the second class is the base, that of the first extends it by the two
  module attributes. A constructor draws the fills of its layers from the random
  generator: \<open>g c\<close> is the \<open>c\<close>-th fill it makes.
\<close>

record network =
  hidden :: linear
  "output" :: linear

record network_modules = network +
  sigmoid_module :: layer
  softmax_module :: layer

definition Network_modules_init :: "(nat \<Rightarrow> nat \<Rightarrow> real) \<Rightarrow> network_modules" where
  "Network_modules_init g =
     \<lparr>hidden = nn_Linear 784 256 (g 0) (g 1), output = nn_Linear 256 10 (g 2) (g 3),
      sigmoid_module = Sigmoid, softmax_module = Softmax (Some 1)\<rparr>"

definition Network_modules_forward :: "network_modules \<Rightarrow> tensor \<Rightarrow> error + tensor" where
  "Network_modules_forward self x =
     rbind (Linear_forward (hidden self) x) (\<lambda>x.
     rbind (layer_forward (sigmoid_module self) x) (\<lambda>x.
     rbind (Linear_forward (output self) x) (\<lambda>x.
     layer_forward (softmax_module self) x)))"

definition Network_init :: "(nat \<Rightarrow> nat \<Rightarrow> real) \<Rightarrow> network" where
  "Network_init g =
     \<lparr>hidden = nn_Linear 784 256 (g 0) (g 1), output = nn_Linear 256 10 (g 2) (g 3)\<rparr>"

definition Network_forward :: "network \<Rightarrow> tensor \<Rightarrow> error + tensor" where
  "Network_forward self x =
     rbind (Linear_forward (hidden self) x) (\<lambda>h.
     rbind (Linear_forward (output self) (torch_sigmoid h)) (\<lambda>out.
     F_softmax out (Some 1)))"

text \<open>
  The \<^verbatim>\<open>Net\<close> class. Its \<^verbatim>\<open>forward\<close> ends without a \<^verbatim>\<open>return\<close> statement, so a call
  that does not raise returns \<^verbatim>\<open>None\<close>; the result type is \<open>tensor option\<close>.
  \<^verbatim>\<open>
  self.fc1 = nn.Linear(784, 128)
  self.fc2 = nn.Linear(128, 64)
  self.fc3 = nn.Linear(64, 10)

  def forward(self, x):
      x = F.relu(self.fc1(x))
      x = F.relu(self.fc2(x))
      x = F.softmax(self.fc3(x))
  \<close>
\<close>

record net =
  fc1 :: linear
  fc2 :: linear
  fc3 :: linear

definition Net_init :: "(nat \<Rightarrow> nat \<Rightarrow> real) \<Rightarrow> net" where
  "Net_init g =
     \<lparr>fc1 = nn_Linear 784 128 (g 0) (g 1), fc2 = nn_Linear 128 64 (g 2) (g 3),
      fc3 = nn_Linear 64 10 (g 4) (g 5)\<rparr>"

definition Net_forward :: "net \<Rightarrow> tensor \<Rightarrow> error + tensor option" where
  "Net_forward self x =
     rbind (Linear_forward (fc1 self) x) (\<lambda>a.
     rbind (Linear_forward (fc2 self) (torch_relu a)) (\<lambda>a.
     rbind (Linear_forward (fc3 self) (torch_relu a)) (\<lambda>a.
     rbind (F_softmax a None) (\<lambda>x. Inr None))))"

text \<open>
  The two \<^verbatim>\<open>nn.Sequential\<close> models, with \<^verbatim>\<open>input_size = 784\<close>,
  \<^verbatim>\<open>hidden_sizes = [128, 64]\<close> and \<^verbatim>\<open>output_size = 10\<close>. Built from a list of layers,
  the layers are named by their positions; built from an \<^verbatim>\<open>OrderedDict\<close>, by its keys.
\<close>

definition Sequential_init :: "(nat \<Rightarrow> nat \<Rightarrow> real) \<Rightarrow> (string \<times> layer) list" where
  "Sequential_init g =
     [(''0'', Linear (nn_Linear 784 128 (g 0) (g 1))),
      (''1'', ReLU),
      (''2'', Linear (nn_Linear 128 64 (g 2) (g 3))),
      (''3'', ReLU),
      (''4'', Linear (nn_Linear 64 10 (g 4) (g 5))),
      (''5'', Softmax (Some 1))]"

definition Sequential_named_init :: "(nat \<Rightarrow> nat \<Rightarrow> real) \<Rightarrow> (string \<times> layer) list" where
  "Sequential_named_init g =
     [(''fc1'', Linear (nn_Linear 784 128 (g 0) (g 1))),
      (''relu1'', ReLU),
      (''fc2'', Linear (nn_Linear 128 64 (g 2) (g 3))),
      (''relu2'', ReLU),
      (''output'', Linear (nn_Linear 64 10 (g 4) (g 5))),
      (''softmax'', Softmax (Some 1))]"

section \<open>The notebook session\<close>

subsection \<open>Model objects\<close>

text \<open>
  A model object is an instance of one of the classes above. \<open>module_forward\<close> is the
  method call \<^verbatim>\<open>model.forward(x)\<close>: it returns what the \<^verbatim>\<open>forward\<close> of the object's
  class returns, a tensor or \<^verbatim>\<open>None\<close>.
\<close>

datatype module =
    A_Network_modules network_modules
  | A_Network network
  | A_Net net
  | A_Sequential "(string \<times> layer) list"

fun module_forward :: "module \<Rightarrow> tensor \<Rightarrow> error + tensor option" where
  "module_forward (A_Network_modules m) x = rbind (Network_modules_forward m x) (\<lambda>y. Inr (Some y))"
| "module_forward (A_Network m) x = rbind (Network_forward m x) (\<lambda>y. Inr (Some y))"
| "module_forward (A_Net m) x = Net_forward m x"
| "module_forward (A_Sequential ls) x = rbind (Sequential_forward ls x) (\<lambda>y. Inr (Some y))"

text \<open>
  \<^verbatim>\<open>model.fc1\<close> is an attribute of a \<^verbatim>\<open>Net\<close> object and of a \<^verbatim>\<open>Sequential\<close> with a
  linear layer of that name. \<open>update_fc1\<close> is an in-place change of that layer.
\<close>

fun update_named :: "string \<Rightarrow> (linear \<Rightarrow> linear) \<Rightarrow> (string \<times> layer) list \<Rightarrow> (string \<times> layer) list option" where
  "update_named name f [] = None"
| "update_named name f ((k, l) # ls) =
     (if k = name
      then (case l of Linear lin \<Rightarrow> Some ((k, Linear (f lin)) # ls) | _ \<Rightarrow> None)
      else map_option ((#) (k, l)) (update_named name f ls))"

fun update_fc1 :: "(linear \<Rightarrow> linear) \<Rightarrow> module \<Rightarrow> error + module" where
  "update_fc1 f (A_Net m) = Inr (A_Net (m\<lparr>fc1 := f (fc1 m)\<rparr>))"
| "update_fc1 f (A_Sequential ls) =
     (case update_named ''fc1'' f ls of None \<Rightarrow> Inl AttributeError | Some ls' \<Rightarrow> Inr (A_Sequential ls'))"
| "update_fc1 f (A_Network_modules m) = Inl AttributeError"
| "update_fc1 f (A_Network m) = Inl AttributeError"

text \<open>\<^verbatim>\<open>t.fill_(v)\<close> and \<^verbatim>\<open>t.normal_(std=...)\<close> overwrite the elements of a tensor and keep
  its shape; the samples are the generator's (\<open>g\<close>).\<close>

definition fill_inplace :: "real \<Rightarrow> tensor \<Rightarrow> tensor" where
  "fill_inplace v t = t\<lparr>data := map (\<lambda>_. v) (data t)\<rparr>"

definition normal_inplace :: "(nat \<Rightarrow> real) \<Rightarrow> tensor \<Rightarrow> tensor" where
  "normal_inplace g t = t\<lparr>data := map g [0..<length (data t)]\<rparr>"

subsection \<open>The world and the state of the session\<close>

text \<open>
  What the notebook takes from outside: the fills of the random generator (\<open>random w c\<close>
  is the \<open>c\<close>-th tensor it fills), the batches the data loader yields at each fetch
  (images and labels), the content of memory a growing \<^verbatim>\<open>resize_\<close> exposes, and the
  function \<^verbatim>\<open>helper.view_classify\<close>, which displays its arguments and may raise.
\<close>

record world =
  random :: "nat \<Rightarrow> nat \<Rightarrow> real"
  batches :: "nat \<Rightarrow> tensor \<times> tensor"
  memory :: "nat \<Rightarrow> real"
  view_classify :: "tensor \<Rightarrow> tensor option \<Rightarrow> error option"

text \<open>
  The state: the global variables of the notebook (\<open>None\<close> is a variable not bound
  yet; \<open>ps_var\<close> bound to Python's \<^verbatim>\<open>None\<close> is \<open>Some None\<close>), the model objects
  built so far (the variable \<^verbatim>\<open>model\<close> holds a position in \<open>heap\<close>), the number of fills
  and fetches made, and the objects whose \<^verbatim>\<open>forward\<close> was called, in order.
\<close>

record session =
  fills :: nat
  fetched :: nat
  heap :: "module list"
  forward_calls :: "nat list"
  images_var :: "tensor option"
  labels_var :: "tensor option"
  w1_var :: "tensor option"
  b1_var :: "tensor option"
  w2_var :: "tensor option"
  b2_var :: "tensor option"
  x_var :: "tensor option"
  out_var :: "tensor option"
  probabilities_var :: "tensor option"
  model_var :: "nat option"
  ps_var :: "tensor option option"
  img_var :: "tensor option"

definition init_session :: session where
  "init_session =
     \<lparr>fills = 0, fetched = 0, heap = [], forward_calls = [],
      images_var = None, labels_var = None, w1_var = None, b1_var = None, w2_var = None,
      b2_var = None, x_var = None, out_var = None, probabilities_var = None,
      model_var = None, ps_var = None, img_var = None\<rparr>"

text \<open>A statement runs on the state and either raises or yields a value; the state it
  reached is kept in both cases. Nothing in the notebook catches an exception, so a
  sequence of statements stops at the first one that raises.\<close>

type_synonym 'a cmd = "session \<Rightarrow> (error + 'a) \<times> session"

definition seq :: "'a cmd \<Rightarrow> ('a \<Rightarrow> 'b cmd) \<Rightarrow> 'b cmd" where
  "seq m f s = (case m s of (Inl e, s') \<Rightarrow> (Inl e, s') | (Inr a, s') \<Rightarrow> f a s')"

definition lift :: "error + 'a \<Rightarrow> 'a cmd" where
  "lift r s = (r, s)"

definition load :: "(session \<Rightarrow> 'a option) \<Rightarrow> 'a cmd" where
  "load var s = (case var s of None \<Rightarrow> (Inl NameError, s) | Some v \<Rightarrow> (Inr v, s))"

definition store :: "(session \<Rightarrow> session) \<Rightarrow> unit cmd" where
  "store upd s = (Inr (), upd s)"

text \<open>\<^verbatim>\<open>torch.randn(*sizes)\<close>, \<^verbatim>\<open>images, labels = next(iter(trainloader))\<close>, the
  construction of a model object, and \<^verbatim>\<open>model.forward(x)\<close>.\<close>

definition randn :: "world \<Rightarrow> nat list \<Rightarrow> tensor cmd" where
  "randn w sizes s = (Inr (torch_randn sizes (random w (fills s))), s\<lparr>fills := Suc (fills s)\<rparr>)"

definition fetch :: "world \<Rightarrow> unit cmd" where
  "fetch w s =
     (Inr (), s\<lparr>fetched := Suc (fetched s),
                images_var := Some (fst (batches w (fetched s))),
                labels_var := Some (snd (batches w (fetched s)))\<rparr>)"

definition construct :: "world \<Rightarrow> nat \<Rightarrow> ((nat \<Rightarrow> nat \<Rightarrow> real) \<Rightarrow> module) \<Rightarrow> unit cmd" where
  "construct w k mk s =
     (Inr (), s\<lparr>fills := fills s + k,
                heap := heap s @ [mk (\<lambda>c. random w (fills s + c))],
                model_var := Some (length (heap s))\<rparr>)"

definition call_forward :: "tensor \<Rightarrow> tensor option cmd" where
  "call_forward x =
     seq (load model_var) (\<lambda>r s.
       (if r < length (heap s) then module_forward (heap s ! r) x else Inl NameError,
        s\<lparr>forward_calls := forward_calls s @ [r]\<rparr>))"

definition change_fc1 :: "(linear \<Rightarrow> linear) \<Rightarrow> unit cmd" where
  "change_fc1 f =
     seq (load model_var) (\<lambda>r s.
       if r < length (heap s)
       then (case update_fc1 f (heap s ! r) of
               Inl e \<Rightarrow> (Inl e, s)
             | Inr m \<Rightarrow> (Inr (), s\<lparr>heap := (heap s)[r := m]\<rparr>))
       else (Inl NameError, s))"

definition show_classify :: "world \<Rightarrow> tensor \<Rightarrow> tensor option \<Rightarrow> unit cmd" where
  "show_classify w v p s = (case view_classify w v p of None \<Rightarrow> (Inr (), s) | Some e \<Rightarrow> (Inl e, s))"

subsection \<open>The cells\<close>

text \<open>
  The code cells that act on the variables, in the order of the file. The other code
  cells import packages, build the data loader (the world's \<open>batches\<close>), define the
  classes (the definitions above) or only print; a printed expression is modelled where
  it stands in a cell that also acts on the variables.
  \<^verbatim>\<open>
  dataiter = iter(trainloader)
  images, labels = dataiter.next()
  \<close>
\<close>

definition cell_load :: "world \<Rightarrow> unit cmd" where
  "cell_load w = fetch w"

text \<open>The manual forward pass, statement by statement.\<close>

definition cell_manual :: "world \<Rightarrow> unit cmd" where
  "cell_manual w =
     seq (randn w [28 * 28, 256]) (\<lambda>t. seq (store (\<lambda>s. s\<lparr>w1_var := Some t\<rparr>)) (\<lambda>_.
     seq (randn w [256]) (\<lambda>t. seq (store (\<lambda>s. s\<lparr>b1_var := Some t\<rparr>)) (\<lambda>_.
     seq (randn w [256, 10]) (\<lambda>t. seq (store (\<lambda>s. s\<lparr>w2_var := Some t\<rparr>)) (\<lambda>_.
     seq (randn w [10]) (\<lambda>t. seq (store (\<lambda>s. s\<lparr>b2_var := Some t\<rparr>)) (\<lambda>_.
     seq (load images_var) (\<lambda>images. seq (lift (view [64, - 1] images)) (\<lambda>t.
     seq (store (\<lambda>s. s\<lparr>x_var := Some t\<rparr>)) (\<lambda>_.
     seq (load x_var) (\<lambda>x. seq (load w1_var) (\<lambda>w1. seq (load b1_var) (\<lambda>b1.
     seq (lift (rbind (torch_mm x w1) (\<lambda>m. rbind (tensor_add m b1) (\<lambda>a. Inr (torch_tanh a))))) (\<lambda>t.
     seq (store (\<lambda>s. s\<lparr>x_var := Some t\<rparr>)) (\<lambda>_.
     seq (load x_var) (\<lambda>x. seq (load w2_var) (\<lambda>w2. seq (load b2_var) (\<lambda>b2.
     seq (lift (rbind (torch_mm x w2) (\<lambda>m. tensor_add m b2))) (\<lambda>t.
     store (\<lambda>s. s\<lparr>out_var := Some t\<rparr>)))))))))))))))))))))"

text \<open>
  \<^verbatim>\<open>
  probabilities = softmax(out)
  print(probabilities.shape)
  print(probabilities.sum(dim=1))
  \<close>
\<close>

definition cell_softmax :: "world \<Rightarrow> unit cmd" where
  "cell_softmax w =
     seq (load out_var) (\<lambda>out. seq (lift (softmax out)) (\<lambda>t.
     seq (store (\<lambda>s. s\<lparr>probabilities_var := Some t\<rparr>)) (\<lambda>_.
     seq (load probabilities_var) (\<lambda>p. seq (lift (tensor_sum 1 p)) (\<lambda>_. lift (Inr ()))))))"

text \<open>\<^verbatim>\<open>model = Network()\<close> (the first class of that name; the second one is defined
  after this cell and never instantiated) and \<^verbatim>\<open>model = Net()\<close>.\<close>

definition cell_Network :: "world \<Rightarrow> unit cmd" where
  "cell_Network w = construct w 4 (\<lambda>g. A_Network_modules (Network_modules_init g))"

definition cell_Net :: "world \<Rightarrow> unit cmd" where
  "cell_Net w = construct w 6 (\<lambda>g. A_Net (Net_init g))"

text \<open>\<^verbatim>\<open>model.fc1.bias.data.fill_(0)\<close> and \<^verbatim>\<open>model.fc1.weight.data.normal_(std=0.01)\<close>.\<close>

definition cell_fill :: "world \<Rightarrow> unit cmd" where
  "cell_fill w = change_fc1 (\<lambda>lin. lin\<lparr>bias := fill_inplace 0 (bias lin)\<rparr>)"

definition cell_normal :: "world \<Rightarrow> unit cmd" where
  "cell_normal w s =
     seq (change_fc1 (\<lambda>lin. lin\<lparr>weight := normal_inplace (random w (fills s)) (weight lin)\<rparr>))
         (\<lambda>_. store (\<lambda>s. s\<lparr>fills := Suc (fills s)\<rparr>)) s"

text \<open>
  \<^verbatim>\<open>
  dataiter = iter(trainloader)
  images, labels = dataiter.next()
  images.resize_(64, 1, 784)
  img_idx = 0
  ps = model.forward(images[img_idx,:])
  img = images[img_idx]
  helper.view_classify(img.view(1, 28, 28), ps)
  \<close>
\<close>

definition cell_forward :: "world \<Rightarrow> unit cmd" where
  "cell_forward w =
     seq (fetch w) (\<lambda>_. seq (load images_var) (\<lambda>images.
     seq (store (\<lambda>s. s\<lparr>images_var := Some (resize_inplace [64, 1, 784] (memory w) images)\<rparr>)) (\<lambda>_.
     seq (load images_var) (\<lambda>images. seq (lift (select_slice 0 images)) (\<lambda>a.
     seq (call_forward a) (\<lambda>r. seq (store (\<lambda>s. s\<lparr>ps_var := Some r\<rparr>)) (\<lambda>_.
     seq (load images_var) (\<lambda>images. seq (lift (select 0 images)) (\<lambda>t.
     seq (store (\<lambda>s. s\<lparr>img_var := Some t\<rparr>)) (\<lambda>_.
     seq (load img_var) (\<lambda>img. seq (lift (view [1, 28, 28] img)) (\<lambda>v.
     seq (load ps_var) (\<lambda>ps. show_classify w v ps)))))))))))))"

text \<open>
  \<^verbatim>\<open>
  model = nn.Sequential(nn.Linear(input_size, hidden_sizes[0]), nn.ReLU(), ...)
  images, labels = next(iter(trainloader))
  images.resize_(images.shape[0], 1, 784)
  ps = model.forward(images[0,:])
  helper.view_classify(images[0].view(1, 28, 28), ps)
  \<close>
\<close>

definition cell_Sequential :: "world \<Rightarrow> unit cmd" where
  "cell_Sequential w =
     seq (construct w 6 (\<lambda>g. A_Sequential (Sequential_init g))) (\<lambda>_.
     seq (fetch w) (\<lambda>_. seq (load images_var) (\<lambda>images.
     seq (lift (case shape images of [] \<Rightarrow> Inl IndexError | n # _ \<Rightarrow> Inr n)) (\<lambda>n.
     seq (store (\<lambda>s. s\<lparr>images_var := Some (resize_inplace [n, 1, 784] (memory w) images)\<rparr>)) (\<lambda>_.
     seq (load images_var) (\<lambda>images. seq (lift (select_slice 0 images)) (\<lambda>a.
     seq (call_forward a) (\<lambda>r. seq (store (\<lambda>s. s\<lparr>ps_var := Some r\<rparr>)) (\<lambda>_.
     seq (load images_var) (\<lambda>images. seq (lift (select 0 images)) (\<lambda>t.
     seq (lift (view [1, 28, 28] t)) (\<lambda>v.
     seq (load ps_var) (\<lambda>ps. show_classify w v ps)))))))))))))"

text \<open>\<^verbatim>\<open>model = nn.Sequential(OrderedDict([('fc1', nn.Linear(...)), ...]))\<close>.\<close>

definition cell_Sequential_named :: "world \<Rightarrow> unit cmd" where
  "cell_Sequential_named w = construct w 6 (\<lambda>g. A_Sequential (Sequential_named_init g))"

text \<open>
  The notebook is its cells in the order of the file. Running it executes each cell on
  the state the cell before it left: a cell that raised has stopped at the statement that
  raised, and the kernel goes on with the next cell.
\<close>

definition notebook :: "world \<Rightarrow> unit cmd list" where
  "notebook w =
     [cell_load w, cell_manual w, cell_softmax w, cell_Network w, cell_Net w, cell_fill w,
      cell_normal w, cell_forward w, cell_Sequential w, cell_Sequential_named w]"

fun run_cells :: "unit cmd list \<Rightarrow> session \<Rightarrow> session" where
  "run_cells [] s = s"
| "run_cells (c # cs) s = run_cells cs (snd (c s))"

subsection \<open>States of the run and inputs of the evaluations\<close>

text \<open>The shapes the constructor of \<^verbatim>\<open>Net\<close> gives the parameters of its three layers;
  \<^verbatim>\<open>fill_\<close> and \<^verbatim>\<open>normal_\<close> keep them.\<close>

definition Net_shapes :: "net \<Rightarrow> bool" where
  "Net_shapes m \<longleftrightarrow>
     shape (weight (fc1 m)) = [128, 784] \<and> shape (bias (fc1 m)) = [128] \<and>
     shape (weight (fc2 m)) = [64, 128] \<and> shape (bias (fc2 m)) = [64] \<and>
     shape (weight (fc3 m)) = [10, 64] \<and> shape (bias (fc3 m)) = [10]"

text \<open>\<^verbatim>\<open>images[0, :]\<close> after \<^verbatim>\<open>images.resize_(n, 1, 784)\<close> of the batch a cell fetches in
  state \<open>s\<close>: the argument of \<^verbatim>\<open>model.forward\<close> in the two cells that call it.\<close>

definition first_image :: "nat \<Rightarrow> world \<Rightarrow> session \<Rightarrow> tensor" where
  "first_image n w s =
     \<lparr>shape = [1, 784],
      data = take 784 (data (resize_inplace [n, 1, 784] (memory w) (fst (batches w (fetched s)))))\<rparr>"

text \<open>The state after the first \<open>k\<close> cells of the notebook, run from the empty session.\<close>

definition state_at :: "nat \<Rightarrow> world \<Rightarrow> session" where
  "state_at k w = run_cells (take k (notebook w)) init_session"

text \<open>The \<^verbatim>\<open>Net\<close> object of the notebook after the two initialisation cells: built from
  the fills 8 to 13 of the generator, with the bias of \<open>fc1\<close> set to zeros and its
  weight to the samples of fill 14, and \<open>fc2\<close> and \<open>fc3\<close> as built.\<close>

definition Net_initialised :: "world \<Rightarrow> net" where
  "Net_initialised w =
     (let m = Net_init (\<lambda>c. random w (8 + c))
      in m\<lparr>fc1 := \<lparr>weight = normal_inplace (random w 14) (weight (fc1 m)),
                    bias = fill_inplace 0 (bias (fc1 m))\<rparr>\<rparr>)"

text \<open>Inputs of the evaluations: \<^verbatim>\<open>torch.zeros(*sizes)\<close>, and a world whose generator and
  data loader yield zeros (batches of 64 images of 28 by 28 pixels) and whose
  \<^verbatim>\<open>view_classify\<close> raises \<^verbatim>\<open>AttributeError\<close> when it is given \<^verbatim>\<open>None\<close> for the
  probabilities.\<close>

definition zeros :: "nat list \<Rightarrow> tensor" where
  "zeros sizes = \<lparr>shape = sizes, data = replicate (prod_list sizes) 0\<rparr>"

definition still_world :: world where
  "still_world =
     \<lparr>random = (\<lambda>c i. 0),
      batches = (\<lambda>c. (zeros [64, 1, 28, 28], zeros [64])),
      memory = (\<lambda>i. 0),
      view_classify = (\<lambda>v p. case p of None \<Rightarrow> Some AttributeError | Some t \<Rightarrow> None)\<rparr>"

section \<open>The network as the specification words it\<close>

text \<open>
  The function both \<^verbatim>\<open>Network\<close> classes are to compute, written from its description and
  not from the code: a hidden affine layer from 784 to 256 units, the sigmoid, an output
  affine layer from 256 to 10 units, and the softmax of each row. \<open>affine_spec W b k v\<close>
  is the affine map of weight \<open>W\<close> and bias \<open>b\<close> on the vector \<open>v\<close> of \<open>k\<close>
  entries; \<open>Network_spec h out x i j\<close> is entry \<open>j\<close> of the output for row \<open>i\<close>
  of the input.
\<close>

definition affine_spec :: "tensor \<Rightarrow> tensor \<Rightarrow> nat \<Rightarrow> (nat \<Rightarrow> real) \<Rightarrow> nat \<Rightarrow> real" where
  "affine_spec W b k v j = (\<Sum>l<k. v l * at2 W j l) + data b ! j"

definition Network_spec :: "linear \<Rightarrow> linear \<Rightarrow> tensor \<Rightarrow> nat \<Rightarrow> nat \<Rightarrow> real" where
  "Network_spec h out x i j =
     (let hid = (\<lambda>l. sigmoid (affine_spec (weight h) (bias h) 784 (at2 x i) l));
          score = affine_spec (weight out) (bias out) 256 hid
      in exp (score j) / (\<Sum>c<10. exp (score c)))"

section \<open>Properties of softmax\<close>

subsection \<open>Index arithmetic and the value of softmax on a matrix\<close>

lemma idx_lt: "i < n \<Longrightarrow> j < k \<Longrightarrow> i * k + j < n * (k::nat)"
proof -
  assume a: "i < n" "j < k"
  then have "i * k + j < i * k + k" by simp
  also have "\<dots> = Suc i * k" by simp
  also have "\<dots> \<le> n * k" using a(1) by (intro mult_le_mono1) simp
  finally show ?thesis .
qed

lemma tensor_sum_rows:
  assumes "shape t = [n, k]"
  shows "tensor_sum 1 t = Inr \<lparr>shape = [n], data = map (\<lambda>q. \<Sum>j\<leftarrow>[0..<k]. data t ! (q * k + j)) [0..<n]\<rparr>"
  using assms by (simp add: tensor_sum_def)

lemma view_column:
  assumes "shape t = [n]"
  shows "view [- 1, 1] t = Inr \<lparr>shape = [n, 1], data = data t\<rparr>"
  using assms by (simp add: view_def numel_def)

lemma softmax_denominator_rows:
  assumes "shape x = [n, k]" 
  shows "softmax_denominator x = Inr \<lparr>shape = [n, 1], data = map (\<lambda>q. \<Sum>j\<leftarrow>[0..<k]. map exp (data x) ! (q * k + j)) [0..<n]\<rparr>"
proof -
  have "shape (torch_exp x) = [n, k]" "data (torch_exp x) = map exp (data x)"
    using assms by (simp_all add: torch_exp_def pointwise_def)
  then show ?thesis
    unfolding softmax_denominator_def
    by (simp only: tensor_sum_rows [of "torch_exp x" n k] rbind_def sum.case)
       (simp add: view_column)
qed

lemma bindex_same: "q < prod_list rs \<Longrightarrow> bindex rs rs q = q"
proof (induction rs arbitrary: q)
  case Nil
  then show ?case by simp
next
  case (Cons r rs)
  have r: "0 < r" using Cons.prems by (cases r) auto
  have "q div r < prod_list rs" using Cons.prems r
    by (simp add: less_mult_imp_div_less mult.commute)
  then have "bindex rs rs (q div r) = q div r" by (rule Cons.IH)
  then show ?case by (cases "r = 1") simp_all
qed

lemma bindex_column: "q < n * k \<Longrightarrow> bindex [k, n] [Suc 0, n] q = q div k"
  by (cases "n = 1") (auto simp add: less_mult_imp_div_less)


lemma softmax_rows:
  assumes sh: "shape x = [n, k]" and len: "length (data x) = n * k"
  shows "softmax x = Inr \<lparr>shape = [n, k],
     data = map (\<lambda>q. exp (data x ! q) / (\<Sum>j\<leftarrow>[0..<k]. exp (data x ! ((q div k) * k + j)))) [0..<n * k]\<rparr>"
proof -
  let ?den = "\<lparr>shape = [n, 1], data = map (\<lambda>q. \<Sum>j\<leftarrow>[0..<k]. map exp (data x) ! (q * k + j)) [0..<n]\<rparr>"
  have e: "shape (torch_exp x) = [n, k]" "data (torch_exp x) = map exp (data x)"
    using sh by (simp_all add: torch_exp_def pointwise_def)
  have inner: "(\<Sum>j\<leftarrow>[0..<k]. map exp (data x) ! (i * k + j)) = (\<Sum>j\<leftarrow>[0..<k]. exp (data x ! (i * k + j)))"
    if "i < n" for i
  proof -
    have "map exp (data x) ! (i * k + j) = exp (data x ! (i * k + j))" if "j < k" for j
      using idx_lt [OF \<open>i < n\<close> that] len by simp
    then show ?thesis by (intro arg_cong [where f = sum_list] map_cong) auto
  qed
  have "softmax x = tensor_div (torch_exp x) ?den"
    by (simp add: softmax_def softmax_denominator_rows [OF sh] rbind_def)
  also have "\<dots> = Inr \<lparr>shape = [n, k],
     data = map (\<lambda>q. exp (data x ! q) / (\<Sum>j\<leftarrow>[0..<k]. exp (data x ! ((q div k) * k + j)))) [0..<n * k]\<rparr>"
  proof -
    have "map exp (data x) ! bindex [k, n] [k, n] q / map (\<lambda>q. \<Sum>j\<leftarrow>[0..<k]. map exp (data x) ! (q * k + j)) [0..<n] ! bindex [k, n] [Suc 0, n] q
        = exp (data x ! q) / (\<Sum>j\<leftarrow>[0..<k]. exp (data x ! ((q div k) * k + j)))"
      if "q < n * k" for q
    proof -
      have q': "q < k * n" using that by (simp add: mult.commute)
      have d: "q div k < n" using that by (simp add: less_mult_imp_div_less)
      have "bindex [k, n] [k, n] q = q" using q' by (intro bindex_same) simp
      moreover have "bindex [k, n] [Suc 0, n] q = q div k" using that by (rule bindex_column)
      ultimately show ?thesis using that len d by (simp add: inner)
    qed
    then show ?thesis
      by (simp add: tensor_div_def broadcast_op_def e mult.commute)
  qed
  finally show ?thesis .
qed


lemma sum_list_upt: "(\<Sum>j\<leftarrow>[0..<k]. f j) = (\<Sum>j<k. f j)"
  by (simp add: interv_sum_list_conv_sum_set_nat atLeast0LessThan)

lemma softmax_entries:
  assumes sh: "shape x = [n, k]" and v: "valid x"
  shows "\<exists>y. softmax x = Inr y \<and> shape y = [n, k] \<and> valid y \<and>
           (\<forall>i<n. \<forall>j<k. at2 y i j = exp (at2 x i j) / (\<Sum>c<k. exp (at2 x i c)))"
proof -
  have len: "length (data x) = n * k" using sh v by (simp add: valid_def numel_def)
  let ?y = "\<lparr>shape = [n, k],
     data = map (\<lambda>q. exp (data x ! q) / (\<Sum>j\<leftarrow>[0..<k]. exp (data x ! ((q div k) * k + j)))) [0..<n * k]\<rparr>"
  have "softmax x = Inr ?y" by (rule softmax_rows [OF sh len])
  moreover have "valid ?y" by (simp add: valid_def numel_def)
  moreover have "at2 ?y i j = exp (at2 x i j) / (\<Sum>c<k. exp (at2 x i c))"
    if "i < n" "j < k" for i j
    using idx_lt [OF that] that sh by (simp add: at2_def sum_list_upt)
  ultimately show ?thesis by auto
qed

lemma softmax_denominator_entries:
  assumes sh: "shape x = [n, k]" and v: "valid x"
  shows "softmax_denominator x =
     Inr \<lparr>shape = [n, 1], data = map (\<lambda>i. \<Sum>c<k. exp (at2 x i c)) [0..<n]\<rparr>"
proof -
  have len: "length (data x) = n * k" using sh v by (simp add: valid_def numel_def)
  have "(\<Sum>j\<leftarrow>[0..<k]. map exp (data x) ! (i * k + j)) = (\<Sum>c<k. exp (at2 x i c))"
    if "i < n" for i
  proof -
    have "map exp (data x) ! (i * k + j) = exp (at2 x i j)" if "j < k" for j
      using idx_lt [OF \<open>i < n\<close> that] len sh by (simp add: at2_def)
    then have "(\<Sum>j\<leftarrow>[0..<k]. map exp (data x) ! (i * k + j)) = (\<Sum>j\<leftarrow>[0..<k]. exp (at2 x i j))"
      by (intro arg_cong [where f = sum_list] map_cong) auto
    then show ?thesis by (simp add: sum_list_upt)
  qed
  then show ?thesis by (simp add: softmax_denominator_rows [OF sh])
qed

lemma exp_sum_pos: "1 \<le> (k::nat) \<Longrightarrow> 0 < (\<Sum>c<k. exp (f c :: real))"
proof (intro sum_pos)
  assume "1 \<le> (k::nat)"
  then show "{..<k} \<noteq> {}" by (auto simp add: lessThan_empty_iff)
qed auto

lemma exp_le_sum: "j < (k::nat) \<Longrightarrow> exp (f j :: real) \<le> (\<Sum>c<k. exp (f c))"
  by (rule member_le_sum) auto

lemma exp_less_sum:
  assumes "j < (k::nat)" and "2 \<le> k"
  shows "exp (f j :: real) < (\<Sum>c<k. exp (f c))"
proof -
  obtain l where l: "l < k" "l \<noteq> j"
  proof (cases "j = 0")
    case True
    with \<open>2 \<le> k\<close> have "1 < k" "1 \<noteq> j" by auto
    then show ?thesis by (rule that)
  next
    case False
    with \<open>j < k\<close> have "0 < k" "0 \<noteq> j" by auto
    then show ?thesis by (rule that)
  qed
  have "(\<Sum>c<k. exp (f c)) = exp (f j) + (\<Sum>c\<in>{..<k} - {j}. exp (f c))"
    using \<open>j < k\<close> by (simp add: sum.remove)
  moreover have "0 < (\<Sum>c\<in>{..<k} - {j}. exp (f c))"
  proof (intro sum_pos)
    show "{..<k} - {j} \<noteq> {}" using l by auto
  qed auto
  ultimately show ?thesis by simp
qed

subsection \<open>The softmax formula\<close>

text \<open>
  Claim C1. On a matrix \<open>x\<close> of shape \<open>(n, k)\<close> the function \<open>softmax\<close> returns
  (it does not raise) a matrix of the same shape, and its entry at row \<open>i\<close> and column
  \<open>j\<close> is \<open>exp (x[i][j])\<close> divided by the sum of \<open>exp (x[i][c])\<close> over the columns
  \<open>c\<close> of that row. Nothing is asked of \<open>n\<close> and \<open>k\<close>, so the statement covers
  every \<open>n, k \<ge> 1\<close>.
\<close>

theorem softmax_formula:
  assumes "shape x = [n, k]" and "valid x"
  shows "\<exists>y. softmax x = Inr y \<and> shape y = [n, k] \<and> valid y \<and>
           (\<forall>i<n. \<forall>j<k. at2 y i j = exp (at2 x i j) / (\<Sum>c<k. exp (at2 x i c)))"
  using assms by (rule softmax_entries)

theorem softmax_formula_witness:
  "\<exists>y. softmax \<lparr>shape = [1, 2], data = [0, 0]\<rparr> = Inr y \<and> shape y = [1, 2] \<and>
       at2 y 0 0 = 1 / 2 \<and> at2 y 0 1 = 1 / 2"
proof -
  let ?x = "\<lparr>shape = [1, 2], data = [0, 0]\<rparr>"
  have "shape ?x = [1, 2]" "valid ?x" by (simp_all add: valid_def numel_def)
  from softmax_formula [OF this] obtain y where y: "softmax ?x = Inr y" "shape y = [1, 2]"
    and e: "\<forall>i<1. \<forall>j<2. at2 y i j = exp (at2 ?x i j) / (\<Sum>c<2. exp (at2 ?x i c))"
    by blast
  have two: "{..<2::nat} = {0, 1}" by auto
  have "at2 y 0 0 = 1 / 2" "at2 y 0 1 = 1 / 2"
    using e by (simp_all add: at2_def two)
  with y show ?thesis by blast
qed

subsection \<open>The denominator is positive\<close>

text \<open>
  Claim C10. On a matrix with at least one column the right operand of the division in
  \<open>softmax\<close> is computed without an error, has one entry per row, the sum of the
  exponentials of that row, and every entry is strictly positive: the division never
  divides by zero.
\<close>

theorem softmax_denominator_positive:
  assumes "shape x = [n, k]" and "valid x" and "1 \<le> k"
  shows "\<exists>d. softmax_denominator x = Inr d \<and> shape d = [n, 1] \<and> length (data d) = n \<and>
           (\<forall>i<n. at2 d i 0 = (\<Sum>c<k. exp (at2 x i c)) \<and> 0 < at2 d i 0)"
proof -
  have "0 < (\<Sum>c<k. exp (at2 x i c))" for i
    by (rule exp_sum_pos [OF \<open>1 \<le> k\<close>])
  then show ?thesis
    by (simp add: softmax_denominator_entries [OF assms(1,2)] at2_def)
qed

theorem softmax_denominator_positive_witness:
  "\<exists>d. softmax_denominator \<lparr>shape = [1, 2], data = [0, 0]\<rparr> = Inr d \<and> at2 d 0 0 = 2"
proof -
  let ?x = "\<lparr>shape = [1, 2], data = [0, 0]\<rparr>"
  have two: "{..<2::nat} = {0, 1}" by auto
  have "shape ?x = [1, 2]" "valid ?x" "(1::nat) \<le> 2" by (simp_all add: valid_def numel_def)
  from softmax_denominator_positive [OF this] show ?thesis
    by (auto simp add: at2_def two)
qed

subsection \<open>Rows of softmax as probability distributions\<close>

text \<open>
  Claim C2, as stated for every matrix, fails on a matrix without columns: each row of the
  result is then empty and sums to 0, which is what \<^verbatim>\<open>probabilities.sum(dim=1)\<close> of the
  notebook would print. The input below has shape \<open>(1, 0)\<close>.
\<close>

theorem softmax_empty_rows_counterexample:
  "softmax \<lparr>shape = [1, 0], data = []\<rparr> = Inr \<lparr>shape = [1, 0], data = []\<rparr> \<and>
   tensor_sum 1 \<lparr>shape = [1, 0], data = []\<rparr> = Inr \<lparr>shape = [1], data = [0]\<rparr>"
  by (simp add: softmax_def softmax_denominator_def rbind_def torch_exp_def pointwise_def
      tensor_sum_def view_def numel_def tensor_div_def broadcast_op_def)

text \<open>
  Claim C2, amended. On a matrix with at least one column every entry of \<open>softmax x\<close>
  is strictly positive and at most 1, strictly below 1 when there are two columns or more,
  and the entries of each row sum to exactly 1 (\<^verbatim>\<open>probabilities.sum(dim=1)\<close> is a vector
  of ones).
\<close>

theorem softmax_rows_are_distributions:
  assumes sh: "shape x = [n, k]" and v: "valid x" and k: "1 \<le> k"
  shows "\<exists>y. softmax x = Inr y \<and>
           (\<forall>i<n. \<forall>j<k. 0 < at2 y i j \<and> at2 y i j \<le> 1 \<and> (2 \<le> k \<longrightarrow> at2 y i j < 1)) \<and>
           tensor_sum 1 y = Inr \<lparr>shape = [n], data = replicate n 1\<rparr>"
proof -
  from softmax_entries [OF sh v] obtain y where y: "softmax x = Inr y" "shape y = [n, k]"
    and e: "\<And>i j. i < n \<Longrightarrow> j < k \<Longrightarrow> at2 y i j = exp (at2 x i j) / (\<Sum>c<k. exp (at2 x i c))"
    by blast
  have pos: "0 < (\<Sum>c<k. exp (at2 x i c))" for i by (rule exp_sum_pos [OF k])
  have bounds: "0 < at2 y i j \<and> at2 y i j \<le> 1 \<and> (2 \<le> k \<longrightarrow> at2 y i j < 1)"
    if "i < n" "j < k" for i j
    using pos [of i] exp_le_sum [OF \<open>j < k\<close>, of "at2 x i"] exp_less_sum [OF \<open>j < k\<close>, of "at2 x i"]
    by (simp add: e [OF that])
  have "(\<Sum>j\<leftarrow>[0..<k]. data y ! (i * k + j)) = 1" if "i < n" for i
  proof -
    have "(\<Sum>j\<leftarrow>[0..<k]. data y ! (i * k + j)) = (\<Sum>j<k. at2 y i j)"
      using y(2) by (simp add: sum_list_upt at2_def)
    also have "\<dots> = (\<Sum>j<k. exp (at2 x i j) / (\<Sum>c<k. exp (at2 x i c)))"
      using that by (intro sum.cong) (simp_all add: e)
    also have "\<dots> = 1"
      using pos [of i] by (simp add: sum_divide_distrib [symmetric])
    finally show ?thesis .
  qed
  then have "map (\<lambda>q. \<Sum>j\<leftarrow>[0..<k]. data y ! (q * k + j)) [0..<n] = replicate n 1"
    by (simp add: map_replicate_const [of 1 "[0..<n]", simplified, symmetric])
  then have "tensor_sum 1 y = Inr \<lparr>shape = [n], data = replicate n 1\<rparr>"
    using tensor_sum_rows [OF y(2)] by simp
  with y(1) bounds show ?thesis by blast
qed

theorem softmax_rows_are_distributions_witness:
  "\<exists>y. softmax \<lparr>shape = [1, 2], data = [0, 0]\<rparr> = Inr y \<and> 0 < at2 y 0 0 \<and> at2 y 0 1 < 1 \<and>
       tensor_sum 1 y = Inr \<lparr>shape = [1], data = [1]\<rparr>"
proof -
  let ?x = "\<lparr>shape = [1, 2], data = [0, 0]\<rparr>"
  have "shape ?x = [1, 2]" "valid ?x" "(1::nat) \<le> 2" by (simp_all add: valid_def numel_def)
  from softmax_rows_are_distributions [OF this] show ?thesis
    by (auto simp add: numeral_2_eq_2)
qed

section \<open>Properties of the forward computations\<close>

subsection \<open>Entries of the framework's operations on matrices\<close>

lemma at2_map:
  assumes "i < n" "j < k"
  shows "at2 \<lparr>shape = [n, k], data = map f [0..<n * k]\<rparr> i j = f (i * k + j)"
  using idx_lt [OF assms] by (simp add: at2_def)

lemma torch_mm_entries:
  assumes a: "shape a = [n, k]" and b: "shape b = [k, m]"
  shows "\<exists>y. torch_mm a b = Inr y \<and> shape y = [n, m] \<and> valid y \<and>
           (\<forall>i<n. \<forall>j<m. at2 y i j = (\<Sum>l<k. at2 a i l * at2 b l j))"
proof -
  let ?y = "\<lparr>shape = [n, m],
             data = map (\<lambda>q. \<Sum>l\<leftarrow>[0..<k]. data a ! ((q div m) * k + l) * data b ! (l * m + q mod m))
                        [0..<n * m]\<rparr>"
  have "torch_mm a b = Inr ?y" using a b by (simp add: torch_mm_def)
  moreover have "valid ?y" by (simp add: valid_def numel_def)
  moreover have "at2 ?y i j = (\<Sum>l<k. at2 a i l * at2 b l j)" if "i < n" "j < m" for i j
    using that a b by (simp add: at2_map sum_list_upt) (simp add: at2_def)
  ultimately show ?thesis by auto
qed

lemma bindex_row: "q < n * m \<Longrightarrow> bindex [m, n] [m] q = q mod m"
  by (cases "m = 1") auto

lemma tensor_add_row:
  assumes a: "shape a = [n, m]" and va: "valid a" and b: "shape b = [m]"
  shows "\<exists>y. tensor_add a b = Inr y \<and> shape y = [n, m] \<and> valid y \<and>
           (\<forall>i<n. \<forall>j<m. at2 y i j = at2 a i j + data b ! j)"
proof -
  let ?y = "\<lparr>shape = [n, m],
             data = map (\<lambda>q. data a ! bindex [m, n] [m, n] q + data b ! bindex [m, n] [m] q)
                        [0..<n * m]\<rparr>"
  have "tensor_add a b = Inr ?y"
    using a b by (simp add: tensor_add_def broadcast_op_def mult.commute)
  moreover have "valid ?y" by (simp add: valid_def numel_def)
  moreover have "at2 ?y i j = at2 a i j + data b ! j" if "i < n" "j < m" for i j
  proof -
    have q: "i * m + j < n * m" by (rule idx_lt [OF that])
    then have "i * m + j < prod_list [m, n]" by (simp add: mult.commute)
    then have 1: "bindex [m, n] [m, n] (i * m + j) = i * m + j" by (rule bindex_same)
    have 2: "bindex [m, n] [m] (i * m + j) = j" using bindex_row [OF q] that by simp
    have "at2 ?y i j = data a ! bindex [m, n] [m, n] (i * m + j) + data b ! bindex [m, n] [m] (i * m + j)"
      using that by (simp only: at2_map)
    also have "\<dots> = at2 a i j + data b ! j"
      unfolding 1 2 using a by (simp add: at2_def)
    finally show ?thesis .
  qed
  ultimately show ?thesis by auto
qed

lemma pointwise_entries:
  assumes "shape t = [n, k]" and "valid t"
  shows "shape (pointwise f t) = [n, k] \<and> valid (pointwise f t) \<and>
         (\<forall>i<n. \<forall>j<k. at2 (pointwise f t) i j = f (at2 t i j))"
proof -
  have len: "length (data t) = n * k" using assms by (simp add: valid_def numel_def)
  have "at2 (pointwise f t) i j = f (at2 t i j)" if "i < n" "j < k" for i j
    using idx_lt [OF that] len assms(1) by (simp add: pointwise_def at2_def)
  then show ?thesis using assms by (simp add: pointwise_def valid_def numel_def)
qed

lemma Linear_forward_entries:
  assumes x: "shape x = [n, k]" and w: "shape (weight lin) = [m, k]" and b: "shape (bias lin) = [m]"
  shows "\<exists>y. Linear_forward lin x = Inr y \<and> shape y = [n, m] \<and> valid y \<and>
           (\<forall>i<n. \<forall>j<m. at2 y i j = (\<Sum>l<k. at2 x i l * at2 (weight lin) j l) + data (bias lin) ! j)"
proof -
  let ?y = "\<lparr>shape = [n, m],
             data = map (\<lambda>q. (\<Sum>l\<leftarrow>[0..<k]. data x ! ((q div m) * k + l) *
                                                 data (weight lin) ! ((q mod m) * k + l))
                                + data (bias lin) ! (q mod m))
                        [0..<n * m]\<rparr>"
  have "Linear_forward lin x = Inr ?y" using x w b by (simp add: Linear_forward_def)
  moreover have "valid ?y" by (simp add: valid_def numel_def)
  moreover have "at2 ?y i j = (\<Sum>l<k. at2 x i l * at2 (weight lin) j l) + data (bias lin) ! j"
    if "i < n" "j < m" for i j
    using that x w by (simp add: at2_map sum_list_upt) (simp add: at2_def)
  ultimately show ?thesis by auto
qed

lemma F_softmax_rows:
  assumes sh: "shape t = [n, k]" and v: "valid t"
  shows "\<exists>y. F_softmax t (Some 1) = Inr y \<and> shape y = [n, k] \<and> valid y \<and>
           (\<forall>i<n. \<forall>j<k. at2 y i j = exp (at2 t i j) / (\<Sum>c<k. exp (at2 t i c)))"
proof -
  let ?y = "softmax_along 1 t"
  have "F_softmax t (Some 1) = Inr ?y" using sh by (simp add: F_softmax_def)
  moreover have y: "?y = \<lparr>shape = [n, k], data = map (\<lambda>q. exp (data t ! q) /
                              (\<Sum>j\<leftarrow>[0..<k]. exp (data t ! ((q div k) * k + j)))) [0..<n * k]\<rparr>"
    using sh by (simp add: softmax_along_def numel_def)
  moreover have "valid ?y" unfolding y by (simp add: valid_def numel_def)
  moreover have "at2 ?y i j = exp (at2 t i j) / (\<Sum>c<k. exp (at2 t i c))" if "i < n" "j < k" for i j
    unfolding y using that sh by (simp add: at2_map sum_list_upt) (simp add: at2_def)
  ultimately show ?thesis using sh by (auto simp add: softmax_along_def)
qed


lemma view_flatten:
  assumes "shape t = [64, 1, 28, 28]"
  shows "view [64, - 1] t = Inr \<lparr>shape = [64, 784], data = data t\<rparr>"
  using assms by (simp add: view_def numel_def)

lemma rbind_Inr: "rbind (Inr a) f = f a"
  by (simp add: rbind_def)

lemma rbind_assoc: "rbind (rbind m f) g = rbind m (\<lambda>a. rbind (f a) g)"
  by (simp add: rbind_def split: sum.splits)

lemma affine_entries:
  assumes x: "shape x = [n, k]" and w: "shape w = [k, m]" and b: "shape b = [m]"
  shows "\<exists>y. rbind (torch_mm x w) (\<lambda>m. tensor_add m b) = Inr y \<and> shape y = [n, m] \<and> valid y \<and>
           (\<forall>i<n. \<forall>j<m. at2 y i j = (\<Sum>l<k. at2 x i l * at2 w l j) + data b ! j)"
proof -
  from torch_mm_entries [OF x w] obtain p where p: "torch_mm x w = Inr p" "shape p = [n, m]" "valid p"
    and pe: "\<And>i j. i < n \<Longrightarrow> j < m \<Longrightarrow> at2 p i j = (\<Sum>l<k. at2 x i l * at2 w l j)" by blast
  from tensor_add_row [OF p(2,3) b] obtain y where y: "tensor_add p b = Inr y" "shape y = [n, m]" "valid y"
    and ye: "\<And>i j. i < n \<Longrightarrow> j < m \<Longrightarrow> at2 y i j = at2 p i j + data b ! j" by blast
  have "rbind (torch_mm x w) (\<lambda>m. tensor_add m b) = Inr y" by (simp add: p(1) y(1) rbind_Inr)
  with y(2,3) show ?thesis by (auto simp add: ye pe)
qed

lemma manual_pass_entries:
  assumes sh: "shape images = [64, 1, 28, 28]" and v: "valid images"
    and w1: "w1 = torch_randn [28 * 28, 256] g1" and b1: "b1 = torch_randn [256] g2"
    and w2: "w2 = torch_randn [256, 10] g3" and b2: "b2 = torch_randn [10] g4"
  shows "\<exists>x h out.
           view [64, - 1] images = Inr x \<and> shape x = [64, 784] \<and> valid x \<and>
           (\<forall>i<64. \<forall>r<28. \<forall>c<28. at2 x i (r * 28 + c) = at4 images i 0 r c) \<and>
           manual_hidden images w1 b1 = Inr h \<and> shape h = [64, 256] \<and>
           (\<forall>i<64. \<forall>j<256. at2 h i j = tanh ((\<Sum>l<784. at2 x i l * at2 w1 l j) + data b1 ! j)) \<and>
           manual_forward images w1 b1 w2 b2 = Inr out \<and> shape out = [64, 10] \<and> valid out \<and>
           (\<forall>i<64. \<forall>j<10. at2 out i j = (\<Sum>l<256. at2 h i l * at2 w2 l j) + data b2 ! j)"
proof -
  let ?x = "\<lparr>shape = [64, 784], data = data images\<rparr>"
  have x: "view [64, - 1] images = Inr ?x" by (rule view_flatten [OF sh])
  have xs: "shape ?x = [64, 784]" by simp
  have xv: "valid ?x" using sh v by (simp add: valid_def numel_def)
  have px: "at2 ?x i (r * 28 + c) = at4 images i 0 r c" for i r c
    using sh by (simp add: at2_def at4_def algebra_simps)
  have s1: "shape w1 = [784, 256]" "shape b1 = [256]" "shape w2 = [256, 10]" "shape b2 = [10]"
    by (simp_all add: w1 b1 w2 b2 torch_randn_def)
  from affine_entries [OF xs s1(1,2)] obtain a
    where a: "rbind (torch_mm ?x w1) (\<lambda>m. tensor_add m b1) = Inr a" "shape a = [64, 256]" "valid a"
    and ae: "\<And>i j. i < 64 \<Longrightarrow> j < 256 \<Longrightarrow> at2 a i j = (\<Sum>l<784. at2 ?x i l * at2 w1 l j) + data b1 ! j"
    by blast
  let ?h = "torch_tanh a"
  from pointwise_entries [OF a(2,3), of tanh]
  have hs: "shape ?h = [64, 256]" and hv: "valid ?h"
    and he: "\<And>i j. i < 64 \<Longrightarrow> j < 256 \<Longrightarrow> at2 ?h i j = tanh (at2 a i j)"
    by (simp_all add: torch_tanh_def)
  have h: "manual_hidden images w1 b1 = Inr ?h"
    using a(1) by (simp add: manual_hidden_def x rbind_Inr rbind_assoc [symmetric])
  from affine_entries [OF hs s1(3,4)] obtain out
    where out: "rbind (torch_mm ?h w2) (\<lambda>m. tensor_add m b2) = Inr out" "shape out = [64, 10]" "valid out"
    and oe: "\<And>i j. i < 64 \<Longrightarrow> j < 10 \<Longrightarrow> at2 out i j = (\<Sum>l<256. at2 ?h i l * at2 w2 l j) + data b2 ! j"
    by blast
  have f: "manual_forward images w1 b1 w2 b2 = Inr out"
    using out(1) by (simp add: manual_forward_def h rbind_Inr)
  show ?thesis
    using x xs xv px h hs f out(2,3) by (auto simp add: he ae oe)
qed

lemma Network_forward_entries:
  assumes x: "shape x = [n, 784]"
    and h: "shape (weight (hidden m)) = [256, 784]" "shape (bias (hidden m)) = [256]"
    and out: "shape (weight (output m)) = [10, 256]" "shape (bias (output m)) = [10]"
  shows "\<exists>y. Network_forward m x = Inr y \<and> shape y = [n, 10] \<and> valid y \<and>
           (\<forall>i<n. \<forall>j<10. at2 y i j = Network_spec (hidden m) (output m) x i j)"
proof -
  let ?h = "hidden m" and ?out = "output m"
  from Linear_forward_entries [OF x h] obtain a where a: "Linear_forward ?h x = Inr a"
    "shape a = [n, 256]" "valid a"
    and ae: "\<And>i l. i < n \<Longrightarrow> l < 256 \<Longrightarrow> at2 a i l = affine_spec (weight ?h) (bias ?h) 784 (at2 x i) l"
    unfolding affine_spec_def by blast
  let ?s = "torch_sigmoid a"
  from pointwise_entries [OF a(2,3), of sigmoid]
  have s: "shape ?s = [n, 256]" "valid ?s"
    and se: "\<And>i l. i < n \<Longrightarrow> l < 256 \<Longrightarrow> at2 ?s i l = sigmoid (at2 a i l)"
    by (simp_all add: torch_sigmoid_def)
  from Linear_forward_entries [OF s(1) out] obtain sc where sc: "Linear_forward ?out ?s = Inr sc"
    "shape sc = [n, 10]" "valid sc"
    and oe: "\<And>i c. i < n \<Longrightarrow> c < 10 \<Longrightarrow>
               at2 sc i c = (\<Sum>l<256. at2 ?s i l * at2 (weight ?out) c l) + data (bias ?out) ! c"
    by blast
  from F_softmax_rows [OF sc(2,3)] obtain y where y: "F_softmax sc (Some 1) = Inr y"
    "shape y = [n, 10]" "valid y"
    and ye: "\<And>i j. i < n \<Longrightarrow> j < 10 \<Longrightarrow> at2 y i j = exp (at2 sc i j) / (\<Sum>c<10. exp (at2 sc i c))"
    by blast
  have score: "at2 sc i c =
      affine_spec (weight ?out) (bias ?out) 256
        (\<lambda>l. sigmoid (affine_spec (weight ?h) (bias ?h) 784 (at2 x i) l)) c"
    if "i < n" "c < 10" for i c
  proof -
    have "(\<Sum>l<256. at2 ?s i l * at2 (weight ?out) c l) =
          (\<Sum>l<256. sigmoid (affine_spec (weight ?h) (bias ?h) 784 (at2 x i) l) * at2 (weight ?out) c l)"
      using that(1) by (intro sum.cong) (simp_all add: se ae)
    then show ?thesis by (simp add: oe [OF that] affine_spec_def [of "weight ?out"])
  qed
  have "at2 y i j = Network_spec ?h ?out x i j" if "i < n" "j < 10" for i j
  proof -
    have "(\<Sum>c<10. exp (at2 sc i c)) =
          (\<Sum>c<10. exp (affine_spec (weight ?out) (bias ?out) 256
             (\<lambda>l. sigmoid (affine_spec (weight ?h) (bias ?h) 784 (at2 x i) l)) c))"
      using that(1) by (intro sum.cong) (simp_all add: score)
    then show ?thesis by (simp add: ye [OF that] score [OF that] Network_spec_def Let_def)
  qed
  moreover have "Network_forward m x = Inr y"
    by (simp add: Network_forward_def a(1) sc(1) y(1) rbind_Inr)
  ultimately show ?thesis using y(2,3) by blast
qed

lemma Network_modules_forward_eq:
  assumes "sigmoid_module m1 = Sigmoid" and "softmax_module m1 = Softmax (Some 1)"
    and "hidden m1 = hidden m2" and "output m1 = output m2"
  shows "Network_modules_forward m1 x = Network_forward m2 x"
  using assms by (simp add: Network_modules_forward_def Network_forward_def rbind_Inr)

lemma nn_Linear_shapes:
  "shape (weight (nn_Linear k m w0 b0)) = [m, k]" "shape (bias (nn_Linear k m w0 b0)) = [m]"
  by (simp_all add: nn_Linear_def)

lemma nn_Linear_weight: "j < m \<Longrightarrow> l < k \<Longrightarrow> at2 (weight (nn_Linear k m w0 b0)) j l = w0 (j * k + l)"
  by (simp add: nn_Linear_def at2_map)

lemma nn_Linear_bias: "j < m \<Longrightarrow> data (bias (nn_Linear k m w0 b0)) ! j = b0 j"
  by (simp add: nn_Linear_def)

subsection \<open>The manual forward pass\<close>

text \<open>
  Claim C6. On an image batch of shape \<open>(64, 1, 28, 28)\<close> the manual pass runs without
  an error. Flattening gives \<open>x\<close> of shape \<open>(64, 784)\<close> whose row \<open>i\<close> holds the
  784 pixels of image \<open>i\<close>, pixel \<open>(r, c)\<close> at column \<open>28 r + c\<close>; the hidden layer is
  the affine map by \<open>w1\<close> (784 to 256) and \<open>b1\<close> under an elementwise activation; the
  output is the affine map of the hidden layer by \<open>w2\<close> (256 to 10) and \<open>b2\<close> and has
  shape \<open>(64, 10)\<close>.
\<close>

theorem manual_forward_shape:
  assumes sh: "shape images = [64, 1, 28, 28]" and v: "valid images"
    and w1: "w1 = torch_randn [28 * 28, 256] g1" and b1: "b1 = torch_randn [256] g2"
    and w2: "w2 = torch_randn [256, 10] g3" and b2: "b2 = torch_randn [10] g4"
  shows "\<exists>x h out.
           view [64, - 1] images = Inr x \<and> shape x = [64, 784] \<and> valid x \<and>
           (\<forall>i<64. \<forall>r<28. \<forall>c<28. at2 x i (r * 28 + c) = at4 images i 0 r c) \<and>
           manual_hidden images w1 b1 = Inr h \<and> shape h = [64, 256] \<and>
           (\<forall>i<64. \<forall>j<256. at2 h i j = tanh ((\<Sum>l<784. at2 x i l * at2 w1 l j) + data b1 ! j)) \<and>
           manual_forward images w1 b1 w2 b2 = Inr out \<and> shape out = [64, 10] \<and> valid out \<and>
           (\<forall>i<64. \<forall>j<10. at2 out i j = (\<Sum>l<256. at2 h i l * at2 w2 l j) + data b2 ! j)"
  using assms by (rule manual_pass_entries)

theorem manual_forward_shape_witness:
  "\<exists>out. manual_forward \<lparr>shape = [64, 1, 28, 28], data = replicate 50176 0\<rparr>
           (torch_randn [28 * 28, 256] (\<lambda>_. 0)) (torch_randn [256] (\<lambda>_. 0))
           (torch_randn [256, 10] (\<lambda>_. 0)) (torch_randn [10] (\<lambda>_. 0)) = Inr out \<and>
         shape out = [64, 10]"
proof -
  let ?images = "\<lparr>shape = [64, 1, 28, 28], data = replicate 50176 0\<rparr>"
  have "shape ?images = [64, 1, 28, 28]" "valid ?images"
    by (simp_all add: valid_def numel_def)
  from manual_forward_shape [OF this refl refl refl refl] show ?thesis by blast
qed

text \<open>
  Claim C5 fails on the manual pass: its hidden activation is \<^verbatim>\<open>torch.tanh\<close>, which is
  none of sigmoid, ReLU and softmax. With zero images and weights and the bias \<open>-1\<close>
  the hidden layer holds \<open>tanh (-1)\<close>, a negative number, where the sigmoid gives a
  positive one and ReLU gives 0. The text of the exercise asks for a sigmoid here.
\<close>

theorem manual_hidden_activation_is_tanh:
  "\<exists>h. manual_hidden \<lparr>shape = [64, 1, 28, 28], data = replicate 50176 0\<rparr>
           (torch_randn [28 * 28, 256] (\<lambda>_. 0)) (torch_randn [256] (\<lambda>_. - 1)) = Inr h \<and>
        at2 h 0 0 = tanh (- 1) \<and> tanh (- 1 :: real) < 0 \<and> 0 < sigmoid (- 1) \<and> relu (- 1) = 0"
proof -
  let ?images = "\<lparr>shape = [64, 1, 28, 28], data = replicate 50176 0\<rparr>"
  let ?w1 = "torch_randn [28 * 28, 256] (\<lambda>_. 0)"
  let ?b1 = "torch_randn [256] (\<lambda>_. - 1)"
  have "shape ?images = [64, 1, 28, 28]" "valid ?images"
    by (simp_all add: valid_def numel_def)
  from manual_pass_entries [OF this refl refl refl refl, of "\<lambda>_. 0" "\<lambda>_. - 1" "\<lambda>_. 0" "\<lambda>_. 0"]
  obtain x h where h: "manual_hidden ?images ?w1 ?b1 = Inr h"
    and he: "\<forall>i<64. \<forall>j<256. at2 h i j = tanh ((\<Sum>l<784. at2 x i l * at2 ?w1 l j) + data ?b1 ! j)"
    by blast
  have "at2 ?w1 l 0 = 0" if "l < 784" for l
  proof -
    have "l * 256 < 200704" using that by simp
    then show ?thesis by (simp add: at2_def torch_randn_def)
  qed
  then have "(\<Sum>l<784. at2 x 0 l * at2 ?w1 l 0) = 0" by (intro sum.neutral) simp
  moreover have "data ?b1 ! 0 = - 1" by (simp add: torch_randn_def)
  ultimately have "at2 h 0 0 = tanh (- 1)" using he by simp
  moreover have "0 < sigmoid (- 1)" by (simp add: sigmoid_def add_pos_pos)
  moreover have "relu (- 1) = 0" by (simp add: relu_def)
  moreover have "tanh (- 1 :: real) < 0" by simp
  ultimately show ?thesis using h by blast
qed

subsection \<open>The two Network classes\<close>

text \<open>
  Claim C7. Let \<open>m1\<close> be an object of the first \<^verbatim>\<open>Network\<close> class (its module
  attributes are those its constructor sets) and \<open>m2\<close> one of the second, with the same
  hidden and output layers, of the shapes the constructors give them. Then the two
  \<^verbatim>\<open>forward\<close> methods agree on every input, and on an input of shape \<open>(n, 784)\<close> both
  return the matrix of shape \<open>(n, 10)\<close> that \<open>Network_spec\<close> describes.
\<close>

theorem Network_classes_agree:
  assumes mods: "sigmoid_module m1 = Sigmoid" "softmax_module m1 = Softmax (Some 1)"
    and eq: "hidden m1 = hidden m2" "output m1 = output m2"
    and x: "shape x = [n, 784]"
    and h: "shape (weight (hidden m2)) = [256, 784]" "shape (bias (hidden m2)) = [256]"
    and out: "shape (weight (output m2)) = [10, 256]" "shape (bias (output m2)) = [10]"
  shows "(\<forall>t. Network_modules_forward m1 t = Network_forward m2 t) \<and>
         (\<exists>y. Network_forward m2 x = Inr y \<and> Network_modules_forward m1 x = Inr y \<and>
              shape y = [n, 10] \<and> valid y \<and>
              (\<forall>i<n. \<forall>j<10. at2 y i j = Network_spec (hidden m2) (output m2) x i j))"
  using Network_forward_entries [OF x h out] Network_modules_forward_eq [OF mods eq]
  by auto

theorem Network_classes_agree_witness:
  "\<exists>y. Network_forward (Network_init (\<lambda>_ _. 0)) \<lparr>shape = [1, 784], data = replicate 784 0\<rparr> = Inr y \<and>
       Network_modules_forward (Network_modules_init (\<lambda>_ _. 0))
         \<lparr>shape = [1, 784], data = replicate 784 0\<rparr> = Inr y \<and>
       shape y = [1, 10] \<and> at2 y 0 0 = 1 / 10"
proof -
  let ?m1 = "Network_modules_init (\<lambda>_ _. 0)" and ?m2 = "Network_init (\<lambda>_ _. 0)"
  let ?x = "\<lparr>shape = [1, 784], data = replicate 784 0\<rparr>"
  have mods: "sigmoid_module ?m1 = Sigmoid" "softmax_module ?m1 = Softmax (Some 1)"
    and eq: "hidden ?m1 = hidden ?m2" "output ?m1 = output ?m2"
    by (simp_all add: Network_modules_init_def Network_init_def)
  have x: "shape ?x = [1, 784]" by simp
  have h: "shape (weight (hidden ?m2)) = [256, 784]" "shape (bias (hidden ?m2)) = [256]"
    and out: "shape (weight (output ?m2)) = [10, 256]" "shape (bias (output ?m2)) = [10]"
    by (simp_all add: Network_init_def nn_Linear_shapes)
  from Network_classes_agree [OF mods eq x h out]
  obtain y where y: "Network_forward ?m2 ?x = Inr y" "Network_modules_forward ?m1 ?x = Inr y"
    "shape y = [1, 10]" and ye: "\<forall>i<1. \<forall>j<10. at2 y i j = Network_spec (hidden ?m2) (output ?m2) ?x i j"
    by blast
  have score: "affine_spec (weight (output ?m2)) (bias (output ?m2)) 256 v c = 0" if "c < 10" for v c
  proof -
    have "(\<Sum>l<256. v l * at2 (weight (output ?m2)) c l) = 0"
      using that by (intro sum.neutral) (simp add: Network_init_def nn_Linear_weight)
    then show ?thesis using that by (simp add: affine_spec_def Network_init_def nn_Linear_bias)
  qed
  have "Network_spec (hidden ?m2) (output ?m2) ?x 0 0 = 1 / 10"
  proof -
    have "(\<Sum>c<10. exp (affine_spec (weight (output ?m2)) (bias (output ?m2)) 256 v c)) = 10" for v
    proof -
      have "(\<Sum>c<10. exp (affine_spec (weight (output ?m2)) (bias (output ?m2)) 256 v c)) = (\<Sum>c<(10::nat). (1::real))"
        by (intro sum.cong) (simp_all add: score)
      then show ?thesis by simp
    qed
    then show ?thesis by (simp add: Network_spec_def Let_def score)
  qed
  then have "at2 y 0 0 = 1 / 10" using ye by simp
  with y show ?thesis by blast
qed

section \<open>Properties of the session\<close>

subsection \<open>The forward method of Net and the effect of each cell\<close>

lemma Linear_forward_ok:
  assumes "shape x \<noteq> []" and "last (shape x) = k"
    and "shape (weight lin) = [m, k]" and "shape (bias lin) = [m]"
  shows "\<exists>y. Linear_forward lin x = Inr y \<and> shape y = butlast (shape x) @ [m]"
  using assms by (simp add: Linear_forward_def)

lemma Linear_forward_mismatch:
  assumes "shape (weight lin) = [m, k]" and "shape x = [] \<or> last (shape x) \<noteq> k"
  shows "Linear_forward lin x = Inl RuntimeError"
  using assms by (auto simp add: Linear_forward_def)

lemma pointwise_shape: "shape (pointwise f t) = shape t"
  by (simp add: pointwise_def)

lemma F_softmax_None_ok:
  assumes "shape t \<noteq> []"
  shows "\<exists>y. F_softmax t None = Inr y"
proof -
  have "0 < length (shape t)" using assms by simp
  then have "length (shape t) = 1 \<or> 1 < length (shape t)" by arith
  then show ?thesis by (auto simp add: F_softmax_def Let_def)
qed

lemma Net_forward_None:
  assumes m: "Net_shapes m" and x: "shape x \<noteq> []" "last (shape x) = 784"
  shows "Net_forward m x = Inr None"
proof -
  from m have s: "shape (weight (fc1 m)) = [128, 784]" "shape (bias (fc1 m)) = [128]"
    "shape (weight (fc2 m)) = [64, 128]" "shape (bias (fc2 m)) = [64]"
    "shape (weight (fc3 m)) = [10, 64]" "shape (bias (fc3 m)) = [10]"
    by (simp_all add: Net_shapes_def)
  from Linear_forward_ok [OF x s(1,2)] obtain a1 where a1: "Linear_forward (fc1 m) x = Inr a1"
    "shape a1 = butlast (shape x) @ [128]" by blast
  have r1: "shape (torch_relu a1) \<noteq> []" "last (shape (torch_relu a1)) = 128"
    using a1(2) by (simp_all add: torch_relu_def pointwise_shape)
  from Linear_forward_ok [OF r1 s(3,4)] obtain a2 where a2: "Linear_forward (fc2 m) (torch_relu a1) = Inr a2"
    "shape a2 = butlast (shape (torch_relu a1)) @ [64]" by blast
  have r2: "shape (torch_relu a2) \<noteq> []" "last (shape (torch_relu a2)) = 64"
    using a2(2) by (simp_all add: torch_relu_def pointwise_shape)
  from Linear_forward_ok [OF r2 s(5,6)] obtain a3 where a3: "Linear_forward (fc3 m) (torch_relu a2) = Inr a3"
    "shape a3 = butlast (shape (torch_relu a2)) @ [10]" by blast
  have "shape a3 \<noteq> []" using a3(2) by simp
  from F_softmax_None_ok [OF this] obtain y where y: "F_softmax a3 None = Inr y" by blast
  show ?thesis by (simp add: Net_forward_def a1(1) a2(1) a3(1) y rbind_def)
qed

lemma Net_forward_not_tensor: "Net_forward m x \<noteq> Inr (Some t)"
  by (simp add: Net_forward_def rbind_def split: sum.splits)

lemma Net_forward_mismatch:
  assumes "Net_shapes m" and "shape x = [] \<or> last (shape x) \<noteq> 784"
  shows "Net_forward m x = Inl RuntimeError"
proof -
  from assms(1) have "shape (weight (fc1 m)) = [128, 784]" by (simp add: Net_shapes_def)
  from Linear_forward_mismatch [OF this assms(2)] show ?thesis
    by (simp add: Net_forward_def rbind_def)
qed

lemma Net_init_shapes: "Net_shapes (Net_init g)"
  by (simp add: Net_shapes_def Net_init_def nn_Linear_shapes)

lemmas cmd_defs = seq_def lift_def load_def store_def randn_def fetch_def construct_def
  call_forward_def change_fc1_def show_classify_def

lemma cell_load_effect:
  "fills (snd (cell_load w s)) = fills s" "fetched (snd (cell_load w s)) = Suc (fetched s)"
  "heap (snd (cell_load w s)) = heap s" "model_var (snd (cell_load w s)) = model_var s"
  "forward_calls (snd (cell_load w s)) = forward_calls s"
  by (simp_all add: cell_load_def cmd_defs)

lemma cell_manual_effect:
  "fills (snd (cell_manual w s)) = fills s + 4" "fetched (snd (cell_manual w s)) = fetched s"
  "heap (snd (cell_manual w s)) = heap s" "model_var (snd (cell_manual w s)) = model_var s"
  "forward_calls (snd (cell_manual w s)) = forward_calls s"
  by (simp_all add: cell_manual_def cmd_defs split: sum.splits option.splits)

lemma cell_softmax_effect:
  "fills (snd (cell_softmax w s)) = fills s" "fetched (snd (cell_softmax w s)) = fetched s"
  "heap (snd (cell_softmax w s)) = heap s" "model_var (snd (cell_softmax w s)) = model_var s"
  "forward_calls (snd (cell_softmax w s)) = forward_calls s"
  by (simp_all add: cell_softmax_def cmd_defs split: sum.splits option.splits)

lemma cell_Network_effect:
  "fills (snd (cell_Network w s)) = fills s + 4" "fetched (snd (cell_Network w s)) = fetched s"
  "heap (snd (cell_Network w s)) =
     heap s @ [A_Network_modules (Network_modules_init (\<lambda>c. random w (fills s + c)))]"
  "model_var (snd (cell_Network w s)) = Some (length (heap s))"
  "forward_calls (snd (cell_Network w s)) = forward_calls s"
  by (simp_all add: cell_Network_def cmd_defs)

lemma cell_Net_effect:
  "fills (snd (cell_Net w s)) = fills s + 6" "fetched (snd (cell_Net w s)) = fetched s"
  "heap (snd (cell_Net w s)) = heap s @ [A_Net (Net_init (\<lambda>c. random w (fills s + c)))]"
  "model_var (snd (cell_Net w s)) = Some (length (heap s))"
  "forward_calls (snd (cell_Net w s)) = forward_calls s"
  by (simp_all add: cell_Net_def cmd_defs)

lemma cell_Sequential_named_effect:
  "fills (snd (cell_Sequential_named w s)) = fills s + 6"
  "fetched (snd (cell_Sequential_named w s)) = fetched s"
  "heap (snd (cell_Sequential_named w s)) =
     heap s @ [A_Sequential (Sequential_named_init (\<lambda>c. random w (fills s + c)))]"
  "model_var (snd (cell_Sequential_named w s)) = Some (length (heap s))"
  "forward_calls (snd (cell_Sequential_named w s)) = forward_calls s"
  by (simp_all add: cell_Sequential_named_def cmd_defs)

lemma resize_inplace_shape: "shape (resize_inplace sizes junk t) = sizes"
  by (simp add: resize_inplace_def)

lemma select_first:
  assumes "shape t = n # rest" and "0 < n"
  shows "select 0 t = Inr \<lparr>shape = rest, data = take (prod_list rest) (data t)\<rparr>"
  using assms by (simp add: select_def)

lemma select_slice_first:
  assumes "shape t = n # d # rest" and "0 < n"
  shows "select_slice 0 t = Inr \<lparr>shape = d # rest, data = take (prod_list (d # rest)) (data t)\<rparr>"
  using assms by (simp add: select_slice_def select_def)

lemma cell_fill_effect:
  "fills (snd (cell_fill w s)) = fills s" "fetched (snd (cell_fill w s)) = fetched s"
  "model_var (snd (cell_fill w s)) = model_var s"
  "forward_calls (snd (cell_fill w s)) = forward_calls s"
  "length (heap (snd (cell_fill w s))) = length (heap s)"
  by (simp_all add: cell_fill_def cmd_defs split: sum.splits option.splits)

lemma cell_fill_heap:
  "heap (snd (cell_fill w s)) =
     (case model_var s of
        None \<Rightarrow> heap s
      | Some r \<Rightarrow>
          if r < length (heap s)
          then (case update_fc1 (\<lambda>lin. lin\<lparr>bias := fill_inplace 0 (bias lin)\<rparr>) (heap s ! r) of
                  Inl e \<Rightarrow> heap s
                | Inr m \<Rightarrow> (heap s)[r := m])
          else heap s)"
  by (simp add: cell_fill_def cmd_defs split: sum.splits option.splits)

lemma cell_normal_effect:
  "fetched (snd (cell_normal w s)) = fetched s"
  "model_var (snd (cell_normal w s)) = model_var s"
  "forward_calls (snd (cell_normal w s)) = forward_calls s"
  "length (heap (snd (cell_normal w s))) = length (heap s)"
  by (simp_all add: cell_normal_def cmd_defs split: sum.splits option.splits)

lemma cell_normal_heap:
  "heap (snd (cell_normal w s)) =
     (case model_var s of
        None \<Rightarrow> heap s
      | Some r \<Rightarrow>
          if r < length (heap s)
          then (case update_fc1 (\<lambda>lin. lin\<lparr>weight := normal_inplace (random w (fills s)) (weight lin)\<rparr>)
                       (heap s ! r) of
                  Inl e \<Rightarrow> heap s
                | Inr m \<Rightarrow> (heap s)[r := m])
          else heap s)"
  by (simp add: cell_normal_def cmd_defs split: sum.splits option.splits)

lemma cell_normal_fills:
  assumes "model_var s = Some r" and "r < length (heap s)" and "heap s ! r = A_Net m"
  shows "fills (snd (cell_normal w s)) = Suc (fills s)"
  using assms by (simp add: cell_normal_def cmd_defs)

lemma cell_forward_effect:
  "fills (snd (cell_forward w s)) = fills s" "fetched (snd (cell_forward w s)) = Suc (fetched s)"
  "heap (snd (cell_forward w s)) = heap s" "model_var (snd (cell_forward w s)) = model_var s"
  by (simp_all add: cell_forward_def cmd_defs split: sum.splits option.splits)

lemma cell_forward_call:
  assumes "model_var s = Some r"
  shows "forward_calls (snd (cell_forward w s)) = forward_calls s @ [r]"
  using assms
  by (simp add: cell_forward_def cmd_defs resize_inplace_shape
      select_slice_first [of _ 64 1 "[784]"] split: sum.splits option.splits)

lemma cell_forward_ps:
  assumes "model_var s = Some r" and "r < length (heap s)"
    and "module_forward (heap s ! r) (first_image 64 w s) = Inr p"
  shows "ps_var (snd (cell_forward w s)) = Some p"
  using assms
  by (simp add: cell_forward_def cmd_defs resize_inplace_shape first_image_def
      select_slice_first [of _ 64 1 "[784]"] split: sum.splits option.splits)

lemma cell_Sequential_effect:
  "fills (snd (cell_Sequential w s)) = fills s + 6"
  "fetched (snd (cell_Sequential w s)) = Suc (fetched s)"
  "heap (snd (cell_Sequential w s)) =
     heap s @ [A_Sequential (Sequential_init (\<lambda>c. random w (fills s + c)))]"
  "model_var (snd (cell_Sequential w s)) = Some (length (heap s))"
  by (simp_all add: cell_Sequential_def cmd_defs split: sum.splits option.splits list.splits)

lemma cell_Sequential_call:
  assumes "shape (fst (batches w (fetched s))) = n # rest" and "0 < n"
  shows "forward_calls (snd (cell_Sequential w s)) = forward_calls s @ [length (heap s)]"
  using assms
  by (simp add: cell_Sequential_def cmd_defs resize_inplace_shape
      select_slice_first [of _ n 1 "[784]"] split: sum.splits option.splits)

lemmas cell_effects = cell_load_effect cell_manual_effect cell_softmax_effect cell_Network_effect
  cell_Net_effect cell_fill_effect cell_normal_effect cell_forward_effect cell_Sequential_effect
  cell_Sequential_named_effect

lemma state_at_5:
  "fills (state_at 5 w) = 14" "fetched (state_at 5 w) = 1"
  "heap (state_at 5 w) =
     [A_Network_modules (Network_modules_init (\<lambda>c. random w (4 + c))),
      A_Net (Net_init (\<lambda>c. random w (8 + c)))]"
  "model_var (state_at 5 w) = Some 1" "forward_calls (state_at 5 w) = []"
  by (simp_all add: state_at_def notebook_def cell_effects init_session_def)

lemma run_cells_snoc: "run_cells (cs @ [c]) s = snd (c (run_cells cs s))"
  by (induction cs arbitrary: s) simp_all

lemma state_at_Suc:
  assumes "k < length (notebook w)"
  shows "state_at (Suc k) w = snd ((notebook w ! k) (state_at k w))"
  using assms by (simp add: state_at_def take_Suc_conv_app_nth run_cells_snoc)

lemma notebook_nth:
  "notebook w ! 5 = cell_fill w" "notebook w ! 6 = cell_normal w" "notebook w ! 7 = cell_forward w"
  "notebook w ! 8 = cell_Sequential w" "notebook w ! 9 = cell_Sequential_named w"
  "length (notebook w) = 10"
  by (simp_all add: notebook_def)

lemma state_at_6:
  "fills (state_at 6 w) = 14" "fetched (state_at 6 w) = 1"
  "heap (state_at 6 w) =
     [A_Network_modules (Network_modules_init (\<lambda>c. random w (4 + c))),
      A_Net ((Net_init (\<lambda>c. random w (8 + c)))
        \<lparr>fc1 := (fc1 (Net_init (\<lambda>c. random w (8 + c))))
                  \<lparr>bias := fill_inplace 0 (bias (fc1 (Net_init (\<lambda>c. random w (8 + c)))))\<rparr>\<rparr>)]"
  "model_var (state_at 6 w) = Some 1" "forward_calls (state_at 6 w) = []"
  by (simp_all add: state_at_Suc [of 5, simplified] notebook_nth state_at_5 cell_fill_effect
      cell_fill_heap)

lemma state_at_7:
  "fills (state_at 7 w) = 15" "fetched (state_at 7 w) = 1"
  "heap (state_at 7 w) =
     [A_Network_modules (Network_modules_init (\<lambda>c. random w (4 + c))), A_Net (Net_initialised w)]"
  "model_var (state_at 7 w) = Some 1" "forward_calls (state_at 7 w) = []"
  by (simp_all add: state_at_Suc [of 6, simplified] notebook_nth state_at_6 cell_normal_effect
      cell_normal_heap cell_normal_fills [where r = 1] Net_initialised_def Let_def)

lemma Net_initialised_shapes: "Net_shapes (Net_initialised w)"
  by (simp add: Net_initialised_def Let_def Net_shapes_def Net_init_def nn_Linear_def
      normal_inplace_def fill_inplace_def)

lemma first_image_shape: "shape (first_image n w s) = [1, 784]"
  by (simp add: first_image_def)

lemma Net_forward_first_image:
  assumes "Net_shapes m"
  shows "module_forward (A_Net m) (first_image n w s) = Inr None"
  using Net_forward_None [OF assms, of "first_image n w s"] by (simp add: first_image_shape)

lemma state_at_8:
  "fills (state_at 8 w) = 15" "fetched (state_at 8 w) = 2"
  "heap (state_at 8 w) =
     [A_Network_modules (Network_modules_init (\<lambda>c. random w (4 + c))), A_Net (Net_initialised w)]"
  "model_var (state_at 8 w) = Some 1" "forward_calls (state_at 8 w) = [1]"
  "ps_var (state_at 8 w) = Some None"
proof -
  have step: "state_at 8 w = snd (cell_forward w (state_at 7 w))"
    using state_at_Suc [of 7 w] by (simp add: notebook_nth)
  show "fills (state_at 8 w) = 15" "fetched (state_at 8 w) = 2"
    "heap (state_at 8 w) =
       [A_Network_modules (Network_modules_init (\<lambda>c. random w (4 + c))), A_Net (Net_initialised w)]"
    "model_var (state_at 8 w) = Some 1"
    by (simp_all add: step cell_forward_effect state_at_7)
  show "forward_calls (state_at 8 w) = [1]"
    by (simp add: step cell_forward_call [where r = 1] state_at_7)
  have "module_forward (heap (state_at 7 w) ! 1) (first_image 64 w (state_at 7 w)) = Inr None"
    using Net_forward_first_image [OF Net_initialised_shapes, where n = 64 and s = "state_at 7 w"]
    by (simp add: state_at_7)
  then show "ps_var (state_at 8 w) = Some None"
    unfolding step by (intro cell_forward_ps [where r = 1]) (simp_all add: state_at_7)
qed

lemma state_at_9:
  "fills (state_at 9 w) = 21" "fetched (state_at 9 w) = 3"
  "heap (state_at 9 w) =
     [A_Network_modules (Network_modules_init (\<lambda>c. random w (4 + c))), A_Net (Net_initialised w),
      A_Sequential (Sequential_init (\<lambda>c. random w (15 + c)))]"
  "model_var (state_at 9 w) = Some 2"
proof -
  have step: "state_at 9 w = snd (cell_Sequential w (state_at 8 w))"
    using state_at_Suc [of 8 w] by (simp add: notebook_nth)
  show "fills (state_at 9 w) = 21" "fetched (state_at 9 w) = 3"
    "heap (state_at 9 w) =
       [A_Network_modules (Network_modules_init (\<lambda>c. random w (4 + c))), A_Net (Net_initialised w),
        A_Sequential (Sequential_init (\<lambda>c. random w (15 + c)))]"
    "model_var (state_at 9 w) = Some 2"
    by (simp_all add: step cell_Sequential_effect state_at_8)
qed

lemma state_at_9_calls:
  assumes "shape (fst (batches w 2)) = n # rest" and "0 < n"
  shows "forward_calls (state_at 9 w) = [1, 2]"
proof -
  have step: "state_at 9 w = snd (cell_Sequential w (state_at 8 w))"
    using state_at_Suc [of 8 w] by (simp add: notebook_nth)
  have "shape (fst (batches w (fetched (state_at 8 w)))) = n # rest"
    using assms(1) by (simp add: state_at_8)
  from cell_Sequential_call [OF this assms(2)] show ?thesis
    by (simp add: step state_at_8)
qed

lemma state_at_10:
  "state_at 10 w = run_cells (notebook w) init_session"
  "heap (state_at 10 w) =
     [A_Network_modules (Network_modules_init (\<lambda>c. random w (4 + c))), A_Net (Net_initialised w),
      A_Sequential (Sequential_init (\<lambda>c. random w (15 + c))),
      A_Sequential (Sequential_named_init (\<lambda>c. random w (21 + c)))]"
  "forward_calls (state_at 10 w) = forward_calls (state_at 9 w)"
proof -
  have step: "state_at 10 w = snd (cell_Sequential_named w (state_at 9 w))"
    using state_at_Suc [of 9 w] by (simp add: notebook_nth)
  show "state_at 10 w = run_cells (notebook w) init_session"
    by (simp add: state_at_def notebook_nth)
  show "heap (state_at 10 w) =
     [A_Network_modules (Network_modules_init (\<lambda>c. random w (4 + c))), A_Net (Net_initialised w),
      A_Sequential (Sequential_init (\<lambda>c. random w (15 + c))),
      A_Sequential (Sequential_named_init (\<lambda>c. random w (21 + c)))]"
    by (simp add: step cell_Sequential_named_effect state_at_9)
  show "forward_calls (state_at 10 w) = forward_calls (state_at 9 w)"
    by (simp add: step cell_Sequential_named_effect)
qed

lemma other_cells_keep_heap:
  assumes "k < length (notebook w)" and "k \<noteq> 5" and "k \<noteq> 6"
  shows "take (length (heap s)) (heap (snd ((notebook w ! k) s))) = heap s"
proof -
  have "k < 10" using assms(1) by (simp add: notebook_def)
  then consider "k = 0" | "k = 1" | "k = 2" | "k = 3" | "k = 4" | "k = 7" | "k = 8" | "k = 9"
    using assms(2,3) by atomize_elim arith
  then show ?thesis
    by cases (simp_all add: notebook_def cell_effects)
qed

lemma cell_fill_others:
  assumes "r < length (heap s)" and "model_var s \<noteq> Some r"
  shows "heap (snd (cell_fill w s)) ! r = heap s ! r"
  using assms by (auto simp add: cell_fill_heap split: option.splits sum.splits)

lemma cell_normal_others:
  assumes "r < length (heap s)" and "model_var s \<noteq> Some r"
  shows "heap (snd (cell_normal w s)) ! r = heap s ! r"
  using assms by (auto simp add: cell_normal_heap split: option.splits sum.splits)

lemma cell_fill_Net:
  assumes "model_var s = Some r" and "r < length (heap s)" and "heap s ! r = A_Net m"
  shows "heap (snd (cell_fill w s)) ! r =
           A_Net (m\<lparr>fc1 := (fc1 m)\<lparr>bias := fill_inplace 0 (bias (fc1 m))\<rparr>\<rparr>)"
  using assms by (simp add: cell_fill_heap)

lemma cell_normal_Net:
  assumes "model_var s = Some r" and "r < length (heap s)" and "heap s ! r = A_Net m"
  shows "heap (snd (cell_normal w s)) ! r =
           A_Net (m\<lparr>fc1 := (fc1 m)\<lparr>weight := normal_inplace (random w (fills s)) (weight (fc1 m))\<rparr>\<rparr>)"
  using assms by (simp add: cell_normal_heap)

lemma manual_forward_bad_numel:
  assumes "numel images mod 64 \<noteq> 0"
  shows "manual_forward images w1 b1 w2 b2 = Inl RuntimeError"
  using assms by (simp add: manual_forward_def manual_hidden_def view_def rbind_def)

lemma view_image:
  assumes "shape t = [1, 784]"
  shows "view [1, 28, 28] t = Inr (t\<lparr>shape := [1, 28, 28]\<rparr>)"
  using assms by (simp add: view_def numel_def)

lemma cell_manual_bad_batch:
  assumes "images_var s = Some t" and "numel t mod 64 \<noteq> 0"
  shows "fst (cell_manual w s) = Inl RuntimeError"
  using assms by (simp add: cell_manual_def cmd_defs view_def)

lemma cell_Sequential_empty_batch:
  assumes "shape (fst (batches w (fetched s))) = 0 # rest"
  shows "fst (cell_Sequential w s) = Inl IndexError"
  using assms
  by (simp add: cell_Sequential_def cmd_defs resize_inplace_shape select_slice_def select_def)

subsection \<open>What Net.forward returns\<close>

text \<open>
  Claim C9, as stated for every input, fails on an input the first layer rejects: there
  \<^verbatim>\<open>forward\<close> does not return \<^verbatim>\<open>None\<close>, it raises. The input below has shape
  \<open>(1, 1)\<close>.
\<close>

theorem Net_forward_raises_counterexample:
  "Net_forward (Net_init (random still_world)) (zeros [1, 1]) = Inl RuntimeError"
  by (rule Net_forward_mismatch [OF Net_init_shapes]) (simp add: zeros_def)

text \<open>
  Claim C9, amended. For a \<^verbatim>\<open>Net\<close> object with the parameter shapes of its constructor,
  \<^verbatim>\<open>forward\<close> never returns a tensor; on every input whose last dimension has 784
  elements it returns \<^verbatim>\<open>None\<close>, and on every other input it raises the framework's
  \<^verbatim>\<open>RuntimeError\<close>. In the notebook, \<^verbatim>\<open>model\<close> is the initialised \<^verbatim>\<open>Net\<close> object when
  the forward cell runs (after seven cells), and after that cell \<^verbatim>\<open>ps\<close> is bound to
  \<^verbatim>\<open>None\<close>, whatever the world.
\<close>

theorem Net_forward_returns_None:
  assumes "Net_shapes m"
  shows "(\<forall>x t. Net_forward m x \<noteq> Inr (Some t)) \<and>
         (\<forall>x. shape x \<noteq> [] \<and> last (shape x) = 784 \<longrightarrow> Net_forward m x = Inr None) \<and>
         (\<forall>x. shape x = [] \<or> last (shape x) \<noteq> 784 \<longrightarrow> Net_forward m x = Inl RuntimeError) \<and>
         model_var (state_at 7 w) = Some 1 \<and>
         heap (state_at 7 w) ! 1 = A_Net (Net_initialised w) \<and> Net_shapes (Net_initialised w) \<and>
         ps_var (state_at 8 w) = Some None"
  using Net_forward_not_tensor [of m] Net_forward_None [OF assms] Net_forward_mismatch [OF assms]
  by (simp add: state_at_7 state_at_8 Net_initialised_shapes)

theorem Net_forward_returns_None_witness:
  "Net_forward (Net_init (random still_world)) (zeros [1, 784]) = Inr None \<and>
   ps_var (state_at 8 still_world) = Some None"
  using Net_forward_returns_None [OF Net_init_shapes, of "random still_world" still_world]
  by (simp add: zeros_def)

subsection \<open>The forward passes of the notebook\<close>

text \<open>
  Claim C4 fails: run from the empty session, the notebook calls \<^verbatim>\<open>model.forward\<close>
  twice, on the objects 1 and 2 of the heap, not once.
\<close>

theorem two_forward_calls_counterexample:
  "forward_calls (run_cells (notebook still_world) init_session) = [1, 2]"
proof -
  have "shape (fst (batches still_world 2)) = 64 # [1, 28, 28]"
    by (simp add: still_world_def zeros_def)
  from state_at_9_calls [OF this] show ?thesis
    by (simp add: state_at_10 [symmetric])
qed

text \<open>
  Claim C4, amended. When the third batch fetched holds at least one image, the notebook
  calls \<^verbatim>\<open>model.forward\<close> exactly twice: first on the \<^verbatim>\<open>Net\<close> object, then on the
  first \<^verbatim>\<open>nn.Sequential\<close> model. (The manual pass is a forward computation without a
  model object.)
\<close>

theorem two_forward_calls:
  assumes "shape (fst (batches w 2)) = n # rest" and "0 < n"
  shows "forward_calls (run_cells (notebook w) init_session) = [1, 2] \<and>
         heap (run_cells (notebook w) init_session) ! 1 = A_Net (Net_initialised w) \<and>
         heap (run_cells (notebook w) init_session) ! 2 =
           A_Sequential (Sequential_init (\<lambda>c. random w (15 + c)))"
  using state_at_9_calls [OF assms] state_at_10 [of w] by simp

theorem two_forward_calls_witness:
  "length (forward_calls (run_cells (notebook still_world) init_session)) = 2 \<and>
   heap (run_cells (notebook still_world) init_session) ! 1 = A_Net (Net_initialised still_world)"
proof -
  have "shape (fst (batches still_world 2)) = 64 # [1, 28, 28]" "(0::nat) < 64"
    by (simp_all add: still_world_def zeros_def)
  from two_forward_calls [OF this] show ?thesis by simp
qed

subsection \<open>Which cells write parameters\<close>

text \<open>
  Claim C3. In any state, every cell of the notebook but the cells 5 (\<^verbatim>\<open>fill_\<close>) and 6
  (\<^verbatim>\<open>normal_\<close>) leaves every model object built so far as it is (a cell may add a new
  object). The two initialisation cells keep the number of objects and every object but
  the one \<^verbatim>\<open>model\<close> refers to; of a \<^verbatim>\<open>Net\<close> object they change the bias of \<open>fc1\<close>,
  respectively its weight, and nothing else. After the whole notebook the heap holds the
  four objects as their constructors built them, but for the bias and the weight of
  \<open>fc1\<close> of the \<^verbatim>\<open>Net\<close> object.
\<close>

theorem only_initialisation_writes_parameters:
  "(\<forall>k<length (notebook w). k \<noteq> 5 \<and> k \<noteq> 6 \<longrightarrow>
      take (length (heap s)) (heap (snd ((notebook w ! k) s))) = heap s) \<and>
   notebook w ! 5 = cell_fill w \<and> notebook w ! 6 = cell_normal w \<and>
   length (heap (snd (cell_fill w s))) = length (heap s) \<and>
   length (heap (snd (cell_normal w s))) = length (heap s) \<and>
   (\<forall>r<length (heap s). model_var s \<noteq> Some r \<longrightarrow>
      heap (snd (cell_fill w s)) ! r = heap s ! r \<and> heap (snd (cell_normal w s)) ! r = heap s ! r) \<and>
   (\<forall>r m. model_var s = Some r \<and> r < length (heap s) \<and> heap s ! r = A_Net m \<longrightarrow>
      heap (snd (cell_fill w s)) ! r =
        A_Net (m\<lparr>fc1 := (fc1 m)\<lparr>bias := fill_inplace 0 (bias (fc1 m))\<rparr>\<rparr>) \<and>
      heap (snd (cell_normal w s)) ! r =
        A_Net (m\<lparr>fc1 := (fc1 m)\<lparr>weight := normal_inplace (random w (fills s)) (weight (fc1 m))\<rparr>\<rparr>)) \<and>
   heap (run_cells (notebook w) init_session) =
     [A_Network_modules (Network_modules_init (\<lambda>c. random w (4 + c))),
      A_Net (Net_initialised w),
      A_Sequential (Sequential_init (\<lambda>c. random w (15 + c))),
      A_Sequential (Sequential_named_init (\<lambda>c. random w (21 + c)))]"
  using other_cells_keep_heap [of _ w s] cell_fill_others [of _ s w] cell_normal_others [of _ s w]
    cell_fill_Net [of s _ _ w] cell_normal_Net [of s _ _ w] state_at_10 [of w]
  by (simp add: notebook_nth cell_fill_effect cell_normal_effect)

theorem only_initialisation_writes_parameters_witness:
  "heap (snd (cell_forward still_world (state_at 7 still_world))) = heap (state_at 7 still_world) \<and>
   length (heap (run_cells (notebook still_world) init_session)) = 4 \<and>
   heap (run_cells (notebook still_world) init_session) ! 1 = A_Net (Net_initialised still_world)"
proof -
  let ?s = "state_at 7 still_world"
  from only_initialisation_writes_parameters [of still_world ?s]
  have f: "\<forall>k<length (notebook still_world). k \<noteq> 5 \<and> k \<noteq> 6 \<longrightarrow>
      take (length (heap ?s)) (heap (snd ((notebook still_world ! k) ?s))) = heap ?s"
    and h: "heap (run_cells (notebook still_world) init_session) =
     [A_Network_modules (Network_modules_init (\<lambda>c. random still_world (4 + c))),
      A_Net (Net_initialised still_world),
      A_Sequential (Sequential_init (\<lambda>c. random still_world (15 + c))),
      A_Sequential (Sequential_named_init (\<lambda>c. random still_world (21 + c)))]"
    by blast+
  have "take (length (heap ?s)) (heap (snd ((notebook still_world ! 7) ?s))) = heap ?s"
    using f [rule_format, of 7] by (simp add: notebook_nth)
  then have "heap (snd (cell_forward still_world ?s)) = heap ?s"
    by (simp add: notebook_nth cell_forward_effect)
  then show ?thesis by (simp add: h)
qed

subsection \<open>When the operations of the notebook fail\<close>

lemma bshape_Nil_right: "bshape xs [] = Some xs"
  by (cases xs) simp_all

lemma bshape_column_fails:
  "bshape (l # p # rest) [1, N] = None \<longleftrightarrow> p \<noteq> N \<and> p \<noteq> 1 \<and> N \<noteq> 1"
  by (auto simp add: bshape_Nil_right)

lemma bshape_length:
  "bshape xs ys = Some rs \<Longrightarrow> length rs = max (length xs) (length ys)"
proof (induction xs ys arbitrary: rs rule: bshape.induct)
  case (1 ys)
  then show ?case by simp
next
  case (2 x xs)
  then show ?case by simp
next
  case (3 x xs y ys)
  then show ?case by (auto split: if_splits)
qed

lemma rev_two_last:
  assumes "2 \<le> length sh"
  shows "\<exists>l rest. rev sh = l # sh ! (length sh - 2) # rest"
proof (cases "rev sh")
  case Nil
  then show ?thesis using assms by simp
next
  case (Cons l t)
  show ?thesis
  proof (cases t)
    case Nil
    with Cons have "length (rev sh) = 1" by simp
    then show ?thesis using assms by simp
  next
    case (Cons p r)
    with \<open>rev sh = l # t\<close> have "rev (rev sh) = rev (l # p # r)" by simp
    then have sh: "sh = rev r @ [p, l]" by simp
    have "sh ! (length sh - 2) = p" by (simp add: sh nth_append)
    then show ?thesis using Cons \<open>rev sh = l # t\<close> by simp
  qed
qed

lemma softmax_outcome:
  "softmax x = Inl e \<longleftrightarrow>
     (length (shape x) < 2 \<and> e = IndexError) \<or>
     (2 \<le> length (shape x) \<and> e = RuntimeError \<and>
      bshape (rev (shape x)) [1, softmax_rows_count x] = None)"
  by (auto simp add: softmax_def softmax_denominator_def tensor_sum_def torch_exp_def pointwise_def
      rbind_def view_def numel_def Let_def tensor_div_def broadcast_op_def softmax_rows_count_def
      numeral_2_eq_2 split: option.splits)

lemma softmax_fails_iff:
  "softmax x = Inl e \<longleftrightarrow>
     (length (shape x) < 2 \<and> e = IndexError) \<or>
     (2 \<le> length (shape x) \<and> e = RuntimeError \<and>
      shape x ! (length (shape x) - 2) \<noteq> softmax_rows_count x \<and>
      shape x ! (length (shape x) - 2) \<noteq> 1 \<and> softmax_rows_count x \<noteq> 1)"
proof (cases "length (shape x) < 2")
  case True
  then show ?thesis by (auto simp add: softmax_outcome)
next
  case False
  then have two: "2 \<le> length (shape x)" by simp
  from rev_two_last [OF two] obtain l rest
    where "rev (shape x) = l # shape x ! (length (shape x) - 2) # rest" by blast
  then have "bshape (rev (shape x)) [1, softmax_rows_count x] = None \<longleftrightarrow>
        shape x ! (length (shape x) - 2) \<noteq> softmax_rows_count x \<and>
        shape x ! (length (shape x) - 2) \<noteq> 1 \<and> softmax_rows_count x \<noteq> 1"
    by (simp only: bshape_column_fails)
  then show ?thesis using two by (simp add: softmax_outcome)
qed

lemma Linear_forward_fails_iff:
  assumes "shape (weight lin) = [m, k]" and "shape (bias lin) = [m]"
  shows "Linear_forward lin x = Inl e \<longleftrightarrow> (shape x = [] \<or> last (shape x) \<noteq> k) \<and> e = RuntimeError"
  using assms by (auto simp add: Linear_forward_def Let_def split: if_splits)

lemma F_softmax_rows_fails_iff:
  "F_softmax t (Some 1) = Inl e \<longleftrightarrow> length (shape t) < 2 \<and> e = IndexError"
  by (auto simp add: F_softmax_def Let_def)

lemma two_layers_softmax_fails_iff:
  assumes h: "shape (weight h) = [256, 784]" "shape (bias h) = [256]"
    and out: "shape (weight out) = [10, 256]" "shape (bias out) = [10]"
  shows "rbind (Linear_forward h x) (\<lambda>a.
           rbind (Linear_forward out (torch_sigmoid a)) (\<lambda>b. F_softmax b (Some 1))) = Inl e \<longleftrightarrow>
         ((shape x = [] \<or> last (shape x) \<noteq> 784) \<and> e = RuntimeError) \<or>
         (shape x = [784] \<and> e = IndexError)"
proof (cases "shape x = [] \<or> last (shape x) \<noteq> 784")
  case True
  then have "Linear_forward h x = Inl RuntimeError"
    using Linear_forward_fails_iff [OF h, of x RuntimeError] by simp
  then show ?thesis using True by (auto simp add: rbind_def)
next
  case False
  then have x: "shape x \<noteq> []" "last (shape x) = 784" by simp_all
  from Linear_forward_ok [OF x h] obtain a where a: "Linear_forward h x = Inr a"
    "shape a = butlast (shape x) @ [256]" by blast
  have s: "shape (torch_sigmoid a) \<noteq> []" "last (shape (torch_sigmoid a)) = 256"
    using a(2) by (simp_all add: torch_sigmoid_def pointwise_shape)
  from Linear_forward_ok [OF s out] obtain b where b: "Linear_forward out (torch_sigmoid a) = Inr b"
    "shape b = butlast (shape (torch_sigmoid a)) @ [10]" by blast
  have len: "length (shape b) = length (shape x)"
    using b(2) a(2) x(1) by (simp add: torch_sigmoid_def pointwise_shape)
  have one: "length (shape x) < 2 \<longleftrightarrow> shape x = [784]"
  proof
    assume "length (shape x) < 2"
    with x(1) have "length (shape x) = 1" by (cases "shape x") auto
    then obtain v where "shape x = [v]" by (cases "shape x") auto
    with x(2) show "shape x = [784]" by simp
  qed simp
  show ?thesis
    using False by (simp add: a(1) b(1) rbind_def F_softmax_rows_fails_iff len one)
qed

lemma Network_forward_fails_iff:
  "Network_forward (Network_init g) x = Inl e \<longleftrightarrow>
     ((shape x = [] \<or> last (shape x) \<noteq> 784) \<and> e = RuntimeError) \<or>
     (shape x = [784] \<and> e = IndexError)"
  using two_layers_softmax_fails_iff [of "hidden (Network_init g)" "output (Network_init g)" x e]
  by (simp add: Network_forward_def Network_init_def nn_Linear_shapes)

lemma Network_modules_forward_fails_iff:
  "Network_modules_forward (Network_modules_init g) x = Inl e \<longleftrightarrow>
     ((shape x = [] \<or> last (shape x) \<noteq> 784) \<and> e = RuntimeError) \<or>
     (shape x = [784] \<and> e = IndexError)"
  using Network_forward_fails_iff [of g x e]
    Network_modules_forward_eq [of "Network_modules_init g" "Network_init g" x]
  by (simp add: Network_modules_init_def Network_init_def)

lemma three_layers_ok:
  assumes l1: "shape (weight l1) = [128, 784]" "shape (bias l1) = [128]"
    and l2: "shape (weight l2) = [64, 128]" "shape (bias l2) = [64]"
    and l3: "shape (weight l3) = [10, 64]" "shape (bias l3) = [10]"
    and x: "shape x \<noteq> []" "last (shape x) = 784"
  shows "\<exists>a b c. Linear_forward l1 x = Inr a \<and> Linear_forward l2 (torch_relu a) = Inr b \<and>
           Linear_forward l3 (torch_relu b) = Inr c \<and> length (shape c) = length (shape x)"
proof -
  from Linear_forward_ok [OF x l1] obtain a where a: "Linear_forward l1 x = Inr a"
    "shape a = butlast (shape x) @ [128]" by blast
  have r1: "shape (torch_relu a) \<noteq> []" "last (shape (torch_relu a)) = 128"
    using a(2) by (simp_all add: torch_relu_def pointwise_shape)
  from Linear_forward_ok [OF r1 l2] obtain b where b: "Linear_forward l2 (torch_relu a) = Inr b"
    "shape b = butlast (shape (torch_relu a)) @ [64]" by blast
  have r2: "shape (torch_relu b) \<noteq> []" "last (shape (torch_relu b)) = 64"
    using b(2) by (simp_all add: torch_relu_def pointwise_shape)
  from Linear_forward_ok [OF r2 l3] obtain c where c: "Linear_forward l3 (torch_relu b) = Inr c"
    "shape c = butlast (shape (torch_relu b)) @ [10]" by blast
  have "length (shape c) = length (shape x)"
    using c(2) b(2) a(2) x(1) by (simp add: torch_relu_def pointwise_shape)
  with a(1) b(1) c(1) show ?thesis by blast
qed

lemma rank_one_784:
  assumes "shape x \<noteq> []" and "last (shape x) = 784"
  shows "length (shape x) < 2 \<longleftrightarrow> shape x = [784]"
proof
  assume "length (shape x) < 2"
  with assms(1) have "length (shape x) = 1" by (cases "shape x") auto
  then obtain v where "shape x = [v]" by (cases "shape x") auto
  with assms(2) show "shape x = [784]" by simp
qed simp

lemma Sequential_layers_fails_iff:
  assumes l1: "shape (weight l1) = [128, 784]" "shape (bias l1) = [128]"
    and l2: "shape (weight l2) = [64, 128]" "shape (bias l2) = [64]"
    and l3: "shape (weight l3) = [10, 64]" "shape (bias l3) = [10]"
  shows "Sequential_forward
           [(n1, Linear l1), (n2, ReLU), (n3, Linear l2), (n4, ReLU), (n5, Linear l3),
            (n6, Softmax (Some 1))] x = Inl e \<longleftrightarrow>
         ((shape x = [] \<or> last (shape x) \<noteq> 784) \<and> e = RuntimeError) \<or>
         (shape x = [784] \<and> e = IndexError)"
proof (cases "shape x = [] \<or> last (shape x) \<noteq> 784")
  case True
  then have "Linear_forward l1 x = Inl RuntimeError"
    using Linear_forward_fails_iff [OF l1, of x RuntimeError] by simp
  then show ?thesis using True by (auto simp add: rbind_def)
next
  case False
  then have x: "shape x \<noteq> []" "last (shape x) = 784" by simp_all
  from three_layers_ok [OF l1 l2 l3 x] obtain a b c where
    "Linear_forward l1 x = Inr a" "Linear_forward l2 (torch_relu a) = Inr b"
    "Linear_forward l3 (torch_relu b) = Inr c" "length (shape c) = length (shape x)" by blast
  then show ?thesis
    using False F_softmax_rows_fails_iff [of c e] rank_one_784 [OF x]
    by (cases "F_softmax c (Some 1)") (simp_all add: rbind_def)
qed

lemma Sequential_forward_fails_iff:
  "Sequential_forward (Sequential_init g) x = Inl e \<longleftrightarrow>
     ((shape x = [] \<or> last (shape x) \<noteq> 784) \<and> e = RuntimeError) \<or>
     (shape x = [784] \<and> e = IndexError)"
  "Sequential_forward (Sequential_named_init g) x = Inl e \<longleftrightarrow>
     ((shape x = [] \<or> last (shape x) \<noteq> 784) \<and> e = RuntimeError) \<or>
     (shape x = [784] \<and> e = IndexError)"
  unfolding Sequential_init_def Sequential_named_init_def
  by (rule Sequential_layers_fails_iff; simp add: nn_Linear_shapes)+

lemma Net_forward_fails_iff:
  assumes "Net_shapes m"
  shows "Net_forward m x = Inl e \<longleftrightarrow> (shape x = [] \<or> last (shape x) \<noteq> 784) \<and> e = RuntimeError"
proof (cases "shape x = [] \<or> last (shape x) \<noteq> 784")
  case True
  then show ?thesis using Net_forward_mismatch [OF assms True] by auto
next
  case False
  then have "Net_forward m x = Inr None" using Net_forward_None [OF assms, of x] by simp
  then show ?thesis using False by simp
qed

lemma manual_forward_outcome:
  assumes w1: "w1 = torch_randn [28 * 28, 256] g1" and b1: "b1 = torch_randn [256] g2"
    and w2: "w2 = torch_randn [256, 10] g3" and b2: "b2 = torch_randn [10] g4"
  shows "manual_forward images w1 b1 w2 b2 = Inl e \<longleftrightarrow> numel images \<noteq> 50176 \<and> e = RuntimeError"
proof -
  have s1: "shape w1 = [784, 256]" "shape b1 = [256]" "shape w2 = [256, 10]" "shape b2 = [10]"
    by (simp_all add: w1 b1 w2 b2 torch_randn_def)
  show ?thesis
  proof (cases "numel images mod 64 = 0")
    case False
    then have "numel images \<noteq> 50176" by auto
    then show ?thesis using manual_forward_bad_numel [OF False] by auto
  next
    case True
    have x: "view [64, - 1] images = Inr \<lparr>shape = [64, numel images div 64], data = data images\<rparr>"
      using True by (simp add: view_def)
    show ?thesis
    proof (cases "numel images div 64 = 784")
      case False
      then have ne: "numel images \<noteq> 50176" by auto
      have "torch_mm \<lparr>shape = [64, numel images div 64], data = data images\<rparr> w1 = Inl RuntimeError"
        using False s1(1) by (simp add: torch_mm_def)
      then have "manual_forward images w1 b1 w2 b2 = Inl RuntimeError"
        by (simp add: manual_forward_def manual_hidden_def rbind_def x)
      then show ?thesis using ne by auto
    next
      case d: True
      have c: "numel images = 50176"
        using div_mult_mod_eq [of "numel images" 64] True d by simp
      let ?x = "\<lparr>shape = [64, 784], data = data images\<rparr>"
      have x': "view [64, - 1] images = Inr ?x" using x d by simp
      have xs: "shape ?x = [64, 784]" by simp
      from affine_entries [OF xs s1(1,2)] obtain a
        where a: "rbind (torch_mm ?x w1) (\<lambda>m. tensor_add m b1) = Inr a" "shape a = [64, 256]"
        by blast
      have h: "manual_hidden images w1 b1 = Inr (torch_tanh a)"
        using a(1) by (simp add: manual_hidden_def x' rbind_Inr rbind_assoc [symmetric])
      have hs: "shape (torch_tanh a) = [64, 256]"
        using a(2) by (simp add: torch_tanh_def pointwise_shape)
      from affine_entries [OF hs s1(3,4)] obtain out
        where "rbind (torch_mm (torch_tanh a) w2) (\<lambda>m. tensor_add m b2) = Inr out" by blast
      then have "manual_forward images w1 b1 w2 b2 = Inr out"
        by (simp add: manual_forward_def h rbind_Inr)
      then show ?thesis using c by simp
    qed
  qed
qed

lemma simple_cells_outcome:
  "fst (cell_load w s) = Inr ()" "fst (cell_Network w s) = Inr ()" "fst (cell_Net w s) = Inr ()"
  "fst (cell_Sequential_named w s) = Inr ()"
  by (simp_all add: cell_load_def cell_Network_def cell_Net_def cell_Sequential_named_def cmd_defs)

lemma softmax_result_rank:
  assumes "softmax x = Inr p"
  shows "1 < length (shape p)"
proof -
  from assms obtain rs where rs: "bshape (rev (shape x)) [1, softmax_rows_count x] = Some rs"
    and p: "shape p = rev rs"
    by (auto simp add: softmax_def softmax_denominator_def tensor_sum_def torch_exp_def pointwise_def
        rbind_def view_def numel_def Let_def tensor_div_def broadcast_op_def softmax_rows_count_def
        numeral_2_eq_2 split: option.splits if_splits)
  from bshape_length [OF rs] have "2 \<le> length rs" by simp
  then show ?thesis using p by simp
qed

lemma cell_softmax_outcome:
  "fst (cell_softmax w s) =
     (case out_var s of
        None \<Rightarrow> Inl NameError
      | Some out \<Rightarrow> (case softmax out of Inl e \<Rightarrow> Inl e | Inr p \<Rightarrow> Inr ()))"
proof (cases "out_var s")
  case None
  then show ?thesis by (simp add: cell_softmax_def cmd_defs)
next
  case (Some out)
  show ?thesis
  proof (cases "softmax out")
    case (Inl e)
    then show ?thesis using Some by (simp add: cell_softmax_def cmd_defs)
  next
    case (Inr p)
    from softmax_result_rank [OF this] have "tensor_sum 1 p \<noteq> Inl e" for e
      by (simp add: tensor_sum_def Let_def)
    then obtain q where "tensor_sum 1 p = Inr q" by (cases "tensor_sum 1 p") auto
    then show ?thesis using Some Inr by (simp add: cell_softmax_def cmd_defs)
  qed
qed

lemma update_named_outcome:
  "update_named name f ls = None \<longleftrightarrow>
     (case map_of ls name of Some (Linear lin) \<Rightarrow> False | _ \<Rightarrow> True)"
  by (induction ls) (auto split: layer.splits option.splits)

lemma update_fc1_outcome:
  "(case update_fc1 f m of Inl e \<Rightarrow> Inl e | Inr m' \<Rightarrow> Inr ()) =
     (case m of
        A_Net n \<Rightarrow> Inr ()
      | A_Sequential ls \<Rightarrow>
          (case map_of ls ''fc1'' of Some (Linear lin) \<Rightarrow> Inr () | _ \<Rightarrow> Inl AttributeError)
      | _ \<Rightarrow> Inl AttributeError)"
proof (cases m)
  case (A_Sequential ls)
  then show ?thesis
    using update_named_outcome [of "''fc1''" f ls]
    by (auto split: option.splits layer.splits)
qed simp_all

lemma cell_fill_outcome:
  "fst (cell_fill w s) =
     (case model_var s of
        None \<Rightarrow> Inl NameError
      | Some r \<Rightarrow>
          if r < length (heap s)
          then (case heap s ! r of
                  A_Net n \<Rightarrow> Inr ()
                | A_Sequential ls \<Rightarrow>
                    (case map_of ls ''fc1'' of Some (Linear lin) \<Rightarrow> Inr () | _ \<Rightarrow> Inl AttributeError)
                | _ \<Rightarrow> Inl AttributeError)
          else Inl NameError)"
proof -
  have "fst (cell_fill w s) =
     (case model_var s of
        None \<Rightarrow> Inl NameError
      | Some r \<Rightarrow>
          if r < length (heap s)
          then (case update_fc1 (\<lambda>lin. lin\<lparr>bias := fill_inplace 0 (bias lin)\<rparr>) (heap s ! r) of
                  Inl e \<Rightarrow> Inl e | Inr m' \<Rightarrow> Inr ())
          else Inl NameError)"
    by (simp add: cell_fill_def cmd_defs split: option.splits sum.splits)
  then show ?thesis by (simp only: update_fc1_outcome)
qed

lemma cell_normal_outcome:
  "fst (cell_normal w s) =
     (case model_var s of
        None \<Rightarrow> Inl NameError
      | Some r \<Rightarrow>
          if r < length (heap s)
          then (case heap s ! r of
                  A_Net n \<Rightarrow> Inr ()
                | A_Sequential ls \<Rightarrow>
                    (case map_of ls ''fc1'' of Some (Linear lin) \<Rightarrow> Inr () | _ \<Rightarrow> Inl AttributeError)
                | _ \<Rightarrow> Inl AttributeError)
          else Inl NameError)"
proof -
  have "fst (cell_normal w s) =
     (case model_var s of
        None \<Rightarrow> Inl NameError
      | Some r \<Rightarrow>
          if r < length (heap s)
          then (case update_fc1 (\<lambda>lin. lin\<lparr>weight := normal_inplace (random w (fills s)) (weight lin)\<rparr>)
                       (heap s ! r) of
                  Inl e \<Rightarrow> Inl e | Inr m' \<Rightarrow> Inr ())
          else Inl NameError)"
    by (simp add: cell_normal_def cmd_defs split: option.splits sum.splits)
  then show ?thesis by (simp only: update_fc1_outcome)
qed

lemma cell_forward_outcome:
  "fst (cell_forward w s) =
     (case model_var s of
        None \<Rightarrow> Inl NameError
      | Some r \<Rightarrow>
          if r < length (heap s)
          then (case module_forward (heap s ! r) (first_image 64 w s) of
                  Inl e \<Rightarrow> Inl e
                | Inr p \<Rightarrow>
                    (case view_classify w ((first_image 64 w s)\<lparr>shape := [1, 28, 28]\<rparr>) p of
                       None \<Rightarrow> Inr ()
                     | Some e \<Rightarrow> Inl e))
          else Inl NameError)"
  by (simp add: cell_forward_def cmd_defs resize_inplace_shape first_image_def
      select_slice_first [of _ 64 1 "[784]"] select_first [of _ 64 "[1, 784]"]
      view_image split: option.splits sum.splits)

lemma cell_Sequential_outcome:
  "fst (cell_Sequential w s) =
     (case shape (fst (batches w (fetched s))) of
        [] \<Rightarrow> Inl IndexError
      | n # rest \<Rightarrow>
          if n = 0 then Inl IndexError
          else (case Sequential_forward (Sequential_init (\<lambda>c. random w (fills s + c)))
                       (first_image n w s) of
                  Inl e \<Rightarrow> Inl e
                | Inr y \<Rightarrow>
                    (case view_classify w ((first_image n w s)\<lparr>shape := [1, 28, 28]\<rparr>) (Some y) of
                       None \<Rightarrow> Inr ()
                     | Some e \<Rightarrow> Inl e)))"
proof (cases "shape (fst (batches w (fetched s)))")
  case Nil
  then show ?thesis by (simp add: cell_Sequential_def cmd_defs)
next
  case (Cons n rest)
  show ?thesis
  proof (cases "n = 0")
    case True
    then show ?thesis using Cons cell_Sequential_empty_batch [of w s rest] by simp
  next
    case False
    then have n: "0 < n" by simp
    show ?thesis
      using Cons False
      by (simp add: cell_Sequential_def cmd_defs resize_inplace_shape first_image_def
          select_slice_first [of _ n 1 "[784]", OF _ n] select_first [of _ n "[1, 784]", OF _ n]
          view_image rbind_def split: option.splits sum.splits)
  qed
qed

lemma cell_manual_outcome:
  "fst (cell_manual w s) =
     (case images_var s of
        None \<Rightarrow> Inl NameError
      | Some t \<Rightarrow> if numel t = 50176 then Inr () else Inl RuntimeError)"
proof (cases "images_var s")
  case None
  then show ?thesis by (simp add: cell_manual_def cmd_defs)
next
  case (Some t)
  let ?w1 = "torch_randn [28 * 28, 256] (random w (fills s))"
  let ?b1 = "torch_randn [256] (random w (Suc (fills s)))"
  let ?w2 = "torch_randn [256, 10] (random w (Suc (Suc (fills s))))"
  let ?b2 = "torch_randn [10] (random w (Suc (Suc (Suc (fills s)))))"
  have s1: "shape ?w1 = [784, 256]" "shape ?b1 = [256]" "shape ?w2 = [256, 10]" "shape ?b2 = [10]"
    by (simp_all add: torch_randn_def)
  show ?thesis
  proof (cases "numel t mod 64 = 0")
    case False
    then have "numel t \<noteq> 50176" by auto
    then show ?thesis using Some cell_manual_bad_batch [OF Some False, of w] by simp
  next
    case True
    have x: "view [64, - 1] t = Inr \<lparr>shape = [64, numel t div 64], data = data t\<rparr>"
      using True by (simp add: view_def)
    show ?thesis
    proof (cases "numel t div 64 = 784")
      case False
      then have ne: "numel t \<noteq> 50176" by auto
      have "torch_mm \<lparr>shape = [64, numel t div 64], data = data t\<rparr> ?w1 = Inl RuntimeError"
        using False s1(1) by (simp add: torch_mm_def)
      then show ?thesis
        using Some ne by (simp add: cell_manual_def cmd_defs x rbind_def)
    next
      case d: True
      have c: "numel t = 50176"
        using div_mult_mod_eq [of "numel t" 64] True d by simp
      let ?x = "\<lparr>shape = [64, 784], data = data t\<rparr>"
      have x': "view [64, - 1] t = Inr ?x" using x d by simp
      have xs: "shape ?x = [64, 784]" by simp
      from affine_entries [OF xs s1(1,2)] obtain a
        where a: "rbind (torch_mm ?x ?w1) (\<lambda>m. tensor_add m ?b1) = Inr a" "shape a = [64, 256]"
        by blast
      have h: "rbind (torch_mm ?x ?w1) (\<lambda>m. rbind (tensor_add m ?b1) (\<lambda>a. Inr (torch_tanh a))) =
               Inr (torch_tanh a)"
        using a(1) by (simp add: rbind_Inr rbind_assoc [symmetric])
      have hs: "shape (torch_tanh a) = [64, 256]"
        using a(2) by (simp add: torch_tanh_def pointwise_shape)
      from affine_entries [OF hs s1(3,4)] obtain out
        where o: "rbind (torch_mm (torch_tanh a) ?w2) (\<lambda>m. tensor_add m ?b2) = Inr out" by blast
      show ?thesis
        using Some c h o by (simp add: cell_manual_def cmd_defs x')
    qed
  qed
qed

subsection \<open>Failures are left to the framework\<close>

text \<open>
  Claim C8. No operation of the notebook checks its input or handles a failure: for every
  input and every state, an operation ends with an error exactly when a call it makes
  into the framework or a read of a variable fails, and then with that error.
  \<^item> \<open>softmax\<close> raises the \<^verbatim>\<open>IndexError\<close> of \<^verbatim>\<open>sum(dim=1)\<close> on a tensor of fewer than two
    dimensions, the \<^verbatim>\<open>RuntimeError\<close> of the division when the next-to-last size of \<open>x\<close>
    cannot be broadcast against the rows of the denominator, and returns otherwise.
  \<^item> The manual pass raises the \<^verbatim>\<open>RuntimeError\<close> of \<^verbatim>\<open>view\<close> or of \<^verbatim>\<open>torch.mm\<close>
    exactly when the batch does not hold 64 times 784 elements.
  \<^item> The \<^verbatim>\<open>forward\<close> of both \<^verbatim>\<open>Network\<close> classes and of both \<^verbatim>\<open>nn.Sequential\<close>
    models raises the \<^verbatim>\<open>RuntimeError\<close> of the first linear layer when the last dimension
    is not 784, the \<^verbatim>\<open>IndexError\<close> of \<^verbatim>\<open>softmax(dim=1)\<close> on a vector of 784 elements, and
    returns otherwise; that of \<^verbatim>\<open>Net\<close> raises in the first case only.
  \<^item> A cell ends with the error of its first statement that fails: the \<^verbatim>\<open>NameError\<close> of
    an unbound variable, the \<^verbatim>\<open>AttributeError\<close> of a model without a linear layer
    \<open>fc1\<close>, the \<^verbatim>\<open>IndexError\<close> of \<^verbatim>\<open>images[0,:]\<close> on a batch without images, the error
    of \<open>softmax\<close> or of \<^verbatim>\<open>model.forward\<close>, or the error \<^verbatim>\<open>helper.view_classify\<close> raises.
    The outcome of the two cells that call \<^verbatim>\<open>resize_\<close> does not depend on the number of
    elements of the batch: the resize never fails and nothing compares the sizes.
\<close>

theorem failures_are_not_handled:
  "(softmax x = Inl e \<longleftrightarrow>
      (length (shape x) < 2 \<and> e = IndexError) \<or>
      (2 \<le> length (shape x) \<and> e = RuntimeError \<and>
       shape x ! (length (shape x) - 2) \<noteq> softmax_rows_count x \<and>
       shape x ! (length (shape x) - 2) \<noteq> 1 \<and> softmax_rows_count x \<noteq> 1)) \<and>
   (manual_forward images (torch_randn [28 * 28, 256] g1) (torch_randn [256] g2)
        (torch_randn [256, 10] g3) (torch_randn [10] g4) = Inl e \<longleftrightarrow>
      numel images \<noteq> 50176 \<and> e = RuntimeError) \<and>
   (Network_modules_forward (Network_modules_init g) x = Inl e \<longleftrightarrow>
      ((shape x = [] \<or> last (shape x) \<noteq> 784) \<and> e = RuntimeError) \<or>
      (shape x = [784] \<and> e = IndexError)) \<and>
   (Network_forward (Network_init g) x = Inl e \<longleftrightarrow>
      ((shape x = [] \<or> last (shape x) \<noteq> 784) \<and> e = RuntimeError) \<or>
      (shape x = [784] \<and> e = IndexError)) \<and>
   (Sequential_forward (Sequential_init g) x = Inl e \<longleftrightarrow>
      ((shape x = [] \<or> last (shape x) \<noteq> 784) \<and> e = RuntimeError) \<or>
      (shape x = [784] \<and> e = IndexError)) \<and>
   (Sequential_forward (Sequential_named_init g) x = Inl e \<longleftrightarrow>
      ((shape x = [] \<or> last (shape x) \<noteq> 784) \<and> e = RuntimeError) \<or>
      (shape x = [784] \<and> e = IndexError)) \<and>
   (Net_forward (Net_init g) x = Inl e \<longleftrightarrow>
      (shape x = [] \<or> last (shape x) \<noteq> 784) \<and> e = RuntimeError) \<and>
   (Net_forward (Net_initialised w) x = Inl e \<longleftrightarrow>
      (shape x = [] \<or> last (shape x) \<noteq> 784) \<and> e = RuntimeError) \<and>
   fst (cell_load w s) = Inr () \<and>
   fst (cell_manual w s) =
     (case images_var s of
        None \<Rightarrow> Inl NameError
      | Some t \<Rightarrow> if numel t = 50176 then Inr () else Inl RuntimeError) \<and>
   fst (cell_softmax w s) =
     (case out_var s of
        None \<Rightarrow> Inl NameError
      | Some out \<Rightarrow> (case softmax out of Inl e \<Rightarrow> Inl e | Inr p \<Rightarrow> Inr ())) \<and>
   fst (cell_Network w s) = Inr () \<and>
   fst (cell_Net w s) = Inr () \<and>
   fst (cell_fill w s) =
     (case model_var s of
        None \<Rightarrow> Inl NameError
      | Some r \<Rightarrow>
          if r < length (heap s)
          then (case heap s ! r of
                  A_Net n \<Rightarrow> Inr ()
                | A_Sequential ls \<Rightarrow>
                    (case map_of ls ''fc1'' of Some (Linear lin) \<Rightarrow> Inr () | _ \<Rightarrow> Inl AttributeError)
                | _ \<Rightarrow> Inl AttributeError)
          else Inl NameError) \<and>
   fst (cell_normal w s) = fst (cell_fill w s) \<and>
   fst (cell_forward w s) =
     (case model_var s of
        None \<Rightarrow> Inl NameError
      | Some r \<Rightarrow>
          if r < length (heap s)
          then (case module_forward (heap s ! r) (first_image 64 w s) of
                  Inl e \<Rightarrow> Inl e
                | Inr p \<Rightarrow>
                    (case view_classify w ((first_image 64 w s)\<lparr>shape := [1, 28, 28]\<rparr>) p of
                       None \<Rightarrow> Inr ()
                     | Some e \<Rightarrow> Inl e))
          else Inl NameError) \<and>
   fst (cell_Sequential w s) =
     (case shape (fst (batches w (fetched s))) of
        [] \<Rightarrow> Inl IndexError
      | n # rest \<Rightarrow>
          if n = 0 then Inl IndexError
          else (case Sequential_forward (Sequential_init (\<lambda>c. random w (fills s + c)))
                       (first_image n w s) of
                  Inl e \<Rightarrow> Inl e
                | Inr y \<Rightarrow>
                    (case view_classify w ((first_image n w s)\<lparr>shape := [1, 28, 28]\<rparr>) (Some y) of
                       None \<Rightarrow> Inr ()
                     | Some e \<Rightarrow> Inl e))) \<and>
   fst (cell_Sequential_named w s) = Inr ()"
proof -
  have "fst (cell_normal w s) = fst (cell_fill w s)"
    by (simp only: cell_normal_outcome cell_fill_outcome)
  then show ?thesis
    by (simp only: softmax_fails_iff manual_forward_outcome [OF refl refl refl refl]
        Network_modules_forward_fails_iff Network_forward_fails_iff Sequential_forward_fails_iff
        Net_forward_fails_iff [OF Net_init_shapes] Net_forward_fails_iff [OF Net_initialised_shapes]
        simple_cells_outcome cell_manual_outcome cell_softmax_outcome cell_fill_outcome
        cell_forward_outcome cell_Sequential_outcome simp_thms)
qed

theorem failures_are_not_handled_witness:
  "softmax (zeros [2]) = Inl IndexError \<and>
   softmax (zeros [2, 3, 4]) = Inl RuntimeError \<and>
   Network_forward (Network_init (random still_world)) (zeros [784]) = Inl IndexError \<and>
   Sequential_forward (Sequential_init (random still_world)) (zeros [1, 1]) = Inl RuntimeError \<and>
   fst (cell_softmax still_world init_session) = Inl NameError \<and>
   fst (cell_fill still_world init_session) = Inl NameError \<and>
   fst (cell_normal still_world (state_at 4 still_world)) = Inl AttributeError \<and>
   fst (cell_forward still_world (state_at 7 still_world)) = Inl AttributeError"
proof -
  note t = failures_are_not_handled
  have 1: "softmax (zeros [2]) = Inl IndexError"
    using t [of "zeros [2]" IndexError] by (simp add: zeros_def)
  have 2: "softmax (zeros [2, 3, 4]) = Inl RuntimeError"
    using t [of "zeros [2, 3, 4]" RuntimeError] by (simp add: zeros_def softmax_rows_count_def)
  have 3: "Network_forward (Network_init (random still_world)) (zeros [784]) = Inl IndexError"
    using t [of "zeros [784]" IndexError _ _ _ _ _ "random still_world"] by (simp add: zeros_def)
  have 4: "Sequential_forward (Sequential_init (random still_world)) (zeros [1, 1]) = Inl RuntimeError"
    using t [of "zeros [1, 1]" RuntimeError _ _ _ _ _ "random still_world"] by (simp add: zeros_def)
  have 5: "fst (cell_softmax still_world init_session) = Inl NameError"
    "fst (cell_fill still_world init_session) = Inl NameError"
    using t [where w = still_world and s = init_session] by (simp_all add: init_session_def)
  have s4: "model_var (state_at 4 still_world) = Some 0"
    "heap (state_at 4 still_world) =
       [A_Network_modules (Network_modules_init (\<lambda>c. random still_world (4 + c)))]"
    by (simp_all add: state_at_def notebook_def cell_effects init_session_def)
  have 6: "fst (cell_normal still_world (state_at 4 still_world)) = Inl AttributeError"
    using t [where w = still_world and s = "state_at 4 still_world"] by (simp add: s4)
  have "module_forward (heap (state_at 7 still_world) ! 1)
          (first_image 64 still_world (state_at 7 still_world)) = Inr None"
    using Net_forward_first_image [OF Net_initialised_shapes, where n = 64 and s = "state_at 7 still_world"]
    by (simp add: state_at_7)
  then have 7: "fst (cell_forward still_world (state_at 7 still_world)) = Inl AttributeError"
    using t [where w = still_world and s = "state_at 7 still_world"]
    by (simp add: state_at_7) (simp add: still_world_def)
  from 1 2 3 4 5 6 7 show ?thesis by simp
qed

end
